theory Spec2Isabelle
  imports Main "HOL-Library.Word"
begin

section \<open>Machine types and positions\<close>

text \<open>
  The runtime is C: \<open>unsigned\<close> and \<open>uint32_t\<close> are 32-bit words whose arithmetic wraps,
  \<open>int\<close> and \<open>int32_t\<close> are 32-bit words read in two's complement (\<open>sint\<close>, \<open><s\<close>),
  \<open>TSSymbol\<close> and \<open>TSStateId\<close> are 16-bit words. A \<open>StackVersion\<close> indexes the array of
  stack heads and is a natural number here.
\<close>

type_synonym uint32 = "32 word"
type_synonym int32 = "32 word"
type_synonym TSSymbol = "16 word"
type_synonym TSStateId = "16 word"
type_synonym StackVersion = nat

record TSPoint =
  row :: uint32
  column :: uint32

record Length =
  bytes :: uint32
  extent :: TSPoint

record TSLexMode =
  lex_state :: "16 word"
  external_lex_state :: "16 word"

record FirstLeaf =
  leaf_symbol :: TSSymbol
  lex_mode :: TSLexMode

section \<open>Trees\<close>

text \<open>
  The scalar fields of a \<open>Tree\<close> (runtime/tree.h is not among the sources; the fields are
  those the parser reads and writes, as the data model of the specification lists them).
  The C field \<open>size\<close> is \<open>tree_size\<close> here.
\<close>

record TreeFields =
  symbol :: TSSymbol
  padding :: Length
  tree_size :: Length
  error_cost :: uint32
  dynamic_precedence :: int32
  bytes_scanned :: uint32
  parse_state :: TSStateId
  alias_sequence_id :: "16 word"
  first_leaf :: FirstLeaf
  extra :: bool
  visible :: bool
  fragile_left :: bool
  fragile_right :: bool
  is_missing :: bool
  has_changes :: bool
  has_external_tokens :: bool
  external_token_state :: "8 word list"

datatype Tree = Tree (scalars: TreeFields) (children: "Tree list")

text \<open>
  Modelled from the spec: runtime/length.h is not among the sources. A position "supports
  addition and subtraction" and has "a distinguished zero value". Bytes add and subtract
  as 32-bit words; adding a length that spans rows moves to its column, subtracting within
  one row leaves a column difference.
\<close>

definition length_zero :: Length where
  "length_zero = \<lparr> bytes = 0, extent = \<lparr> row = 0, column = 0 \<rparr> \<rparr>"

definition length_add :: "Length \<Rightarrow> Length \<Rightarrow> Length" where
  "length_add len1 len2 =
     \<lparr> bytes = bytes len1 + bytes len2,
       extent =
         (if 0 < row (extent len2)
          then \<lparr> row = row (extent len1) + row (extent len2), column = column (extent len2) \<rparr>
          else \<lparr> row = row (extent len1),
                 column = column (extent len1) + column (extent len2) \<rparr>) \<rparr>"

definition length_sub :: "Length \<Rightarrow> Length \<Rightarrow> Length" where
  "length_sub len1 len2 =
     \<lparr> bytes = bytes len1 - bytes len2,
       extent =
         (if row (extent len2) < row (extent len1)
          then \<lparr> row = row (extent len1) - row (extent len2), column = column (extent len1) \<rparr>
          else \<lparr> row = 0, column = column (extent len1) - column (extent len2) \<rparr>) \<rparr>"


definition ts_builtin_sym_error :: TSSymbol where
  "ts_builtin_sym_error = - 1"

text \<open>
  Modelled from the spec: \<open>ts_tree_make_leaf\<close> lives in runtime/tree.c, which is not
  among the sources. \<open>make_leaf(symbol, padding, size, lang)\<close> creates a leaf of that
  symbol, padding and size, its visibility taken from the language's symbol metadata
  (the argument \<open>symbol_visible\<close>); the leaf is its own first leaf and every other
  field is zero.
\<close>

definition ts_tree_make_leaf :: "(TSSymbol \<Rightarrow> bool) \<Rightarrow> TSSymbol \<Rightarrow> Length \<Rightarrow> Length \<Rightarrow> Tree" where
  "ts_tree_make_leaf symbol_visible smb pad sz =
     Tree \<lparr> symbol = smb, padding = pad, tree_size = sz, error_cost = 0,
            dynamic_precedence = 0, bytes_scanned = 0, parse_state = 0,
            alias_sequence_id = 0,
            first_leaf = \<lparr> leaf_symbol = smb,
                           lex_mode = \<lparr> lex_state = 0, external_lex_state = 0 \<rparr> \<rparr>,
            extra = False, visible = symbol_visible smb, fragile_left = False,
            fragile_right = False, is_missing = False, has_changes = False,
            has_external_tokens = False, external_token_state = [] \<rparr> []"

text \<open>
  Modelled from the spec: \<open>ts_tree_compare\<close> lives in runtime/tree.c, which is not among
  the sources. The specification gives it as a three-way comparison, "lexicographic over
  (start position, symbol, recursive compare of children)", with results \<open>-1\<close>, \<open>0\<close>, \<open>1\<close>.
  The start position of a tree's content, relative to where the tree begins, is its
  padding; positions are compared by bytes, then row, then column. Children are compared
  pairwise from the left, and a proper prefix comes first.
\<close>

definition position_less :: "Length \<Rightarrow> Length \<Rightarrow> bool" where
  "position_less a b =
     (bytes a < bytes b \<or>
      (bytes a = bytes b \<and>
        (row (extent a) < row (extent b) \<or>
         (row (extent a) = row (extent b) \<and> column (extent a) < column (extent b)))))"

fun ts_tree_compare :: "Tree \<Rightarrow> Tree \<Rightarrow> int"
  and ts_tree_compare_children :: "Tree list \<Rightarrow> Tree list \<Rightarrow> int" where
  "ts_tree_compare (Tree lf lcs) (Tree rf rcs) =
     (if position_less (padding lf) (padding rf) then - 1
      else if position_less (padding rf) (padding lf) then 1
      else if symbol lf < symbol rf then - 1
      else if symbol rf < symbol lf then 1
      else ts_tree_compare_children lcs rcs)"
| "ts_tree_compare_children [] [] = 0"
| "ts_tree_compare_children [] (r # rs) = - 1"
| "ts_tree_compare_children (l # ls) [] = 1"
| "ts_tree_compare_children (l # ls) (r # rs) =
     (if ts_tree_compare l r = 0 then ts_tree_compare_children ls rs
      else ts_tree_compare l r)"

section \<open>Choosing between two trees\<close>

text \<open>
  \<open>parser__select_tree\<close> (runtime/parser.c). The arguments are pointers that may be
  null; the result \<open>True\<close> tells the caller to replace the left tree by the right one.
\<close>

definition parser__select_tree :: "Tree option \<Rightarrow> Tree option \<Rightarrow> bool" where
  "parser__select_tree left right =
     (case left of
        None \<Rightarrow> True
      | Some l \<Rightarrow>
         (case right of
            None \<Rightarrow> False
          | Some r \<Rightarrow>
             if error_cost (scalars r) < error_cost (scalars l) then True
             else if error_cost (scalars l) < error_cost (scalars r) then False
             else if dynamic_precedence (scalars l) <s dynamic_precedence (scalars r) then True
             else if dynamic_precedence (scalars r) <s dynamic_precedence (scalars l) then False
             else if 0 < error_cost (scalars l) then True
             else if ts_tree_compare l r = - 1 then False
             else if ts_tree_compare l r = 1 then True
             else False))"

section \<open>Comparing stack versions by their error status\<close>

record ErrorStatus =
  cost :: uint32
  node_count :: uint32
  status_dynamic_precedence :: int32
  is_in_error :: bool

datatype ErrorComparison =
  ErrorComparisonTakeLeft
| ErrorComparisonPreferLeft
| ErrorComparisonNone
| ErrorComparisonPreferRight
| ErrorComparisonTakeRight

text \<open>
  \<open>ERROR_COST_PER_SKIPPED_TREE\<close> is a macro of runtime/error_costs.h, which is not among
  the sources; its value is the parameter \<open>skipped_tree_cost\<close> of every function that
  uses it.
\<close>

definition MAX_VERSION_COUNT :: nat where
  "MAX_VERSION_COUNT = 6"

definition MAX_COST_DIFFERENCE :: "uint32 \<Rightarrow> uint32" where
  "MAX_COST_DIFFERENCE skipped_tree_cost = 16 * skipped_tree_cost"

definition parser__compare_versions ::
  "uint32 \<Rightarrow> ErrorStatus \<Rightarrow> ErrorStatus \<Rightarrow> ErrorComparison" where
  "parser__compare_versions skipped_tree_cost a b =
     (if \<not> is_in_error a \<and> is_in_error b then
        (if cost a < cost b then ErrorComparisonTakeLeft else ErrorComparisonPreferLeft)
      else if is_in_error a \<and> \<not> is_in_error b then
        (if cost b < cost a then ErrorComparisonTakeRight else ErrorComparisonPreferRight)
      else if cost a < cost b then
        (if MAX_COST_DIFFERENCE skipped_tree_cost < (cost b - cost a) * (1 + node_count a)
         then ErrorComparisonTakeLeft else ErrorComparisonPreferLeft)
      else if cost b < cost a then
        (if MAX_COST_DIFFERENCE skipped_tree_cost < (cost a - cost b) * (1 + node_count b)
         then ErrorComparisonTakeRight else ErrorComparisonPreferRight)
      else if status_dynamic_precedence b <s status_dynamic_precedence a
        then ErrorComparisonPreferLeft
      else if status_dynamic_precedence a <s status_dynamic_precedence b
        then ErrorComparisonPreferRight
      else ErrorComparisonNone)"

section \<open>The graph-structured stack\<close>

text \<open>
  Modelled from the spec: runtime/stack.c is not among the sources. The specification
  describes the stack as a DAG of nodes keyed by (LR state, position,
  last-external-token-state) whose edges carry a tree, and a version as a handle to a head
  node that is active, paused or halted. A node is modelled with the edges to its
  predecessors; two nodes are the same node when they are equal. A node carries the error
  cost and the dynamic precedence accumulated along its path and the number of nodes
  pushed since the most recent \<open>ERROR_STATE\<close> node.
\<close>

datatype StackNode =
  StackNode (node_state: TSStateId) (node_position: Length) (node_error_cost: uint32)
    (node_node_count: uint32) (node_dynamic_precedence: int32)
    (links: "(StackNode \<times> Tree option \<times> bool) list")

datatype StackStatus = StackStatusActive | StackStatusPaused | StackStatusHalted

record StackHead =
  node :: StackNode
  status :: StackStatus
  last_external_token :: "Tree option"
  lookahead_when_paused :: TSSymbol

type_synonym Stack = "StackHead list"

text \<open>Modelled from the spec: "state id 0 is ERROR_STATE".\<close>

definition ERROR_STATE :: TSStateId where
  "ERROR_STATE = 0"

text \<open>
  Modelled from the spec: the observers \<open>state(v)\<close>, \<open>position(v)\<close>, \<open>error_cost(v)\<close>,
  \<open>node_count_since_error(v)\<close>, \<open>dynamic_precedence(v)\<close>, \<open>is_active\<close>, \<open>is_paused\<close>,
  \<open>is_halted\<close>, \<open>version_count\<close> and \<open>last_external_token(v)\<close> of the stack. The parser
  calls them with a version below the version count only.
\<close>

definition ts_stack_version_count :: "Stack \<Rightarrow> nat" where
  "ts_stack_version_count s = length s"

definition ts_stack_state :: "Stack \<Rightarrow> StackVersion \<Rightarrow> TSStateId" where
  "ts_stack_state s v = node_state (node (s ! v))"

definition ts_stack_position :: "Stack \<Rightarrow> StackVersion \<Rightarrow> Length" where
  "ts_stack_position s v = node_position (node (s ! v))"

definition ts_stack_error_cost :: "Stack \<Rightarrow> StackVersion \<Rightarrow> uint32" where
  "ts_stack_error_cost s v = node_error_cost (node (s ! v))"

definition ts_stack_node_count_since_error :: "Stack \<Rightarrow> StackVersion \<Rightarrow> uint32" where
  "ts_stack_node_count_since_error s v = node_node_count (node (s ! v))"

definition ts_stack_dynamic_precedence :: "Stack \<Rightarrow> StackVersion \<Rightarrow> int32" where
  "ts_stack_dynamic_precedence s v = node_dynamic_precedence (node (s ! v))"

definition ts_stack_is_active :: "Stack \<Rightarrow> StackVersion \<Rightarrow> bool" where
  "ts_stack_is_active s v = (status (s ! v) = StackStatusActive)"

definition ts_stack_is_paused :: "Stack \<Rightarrow> StackVersion \<Rightarrow> bool" where
  "ts_stack_is_paused s v = (status (s ! v) = StackStatusPaused)"

definition ts_stack_is_halted :: "Stack \<Rightarrow> StackVersion \<Rightarrow> bool" where
  "ts_stack_is_halted s v = (status (s ! v) = StackStatusHalted)"

definition ts_stack_last_external_token :: "Stack \<Rightarrow> StackVersion \<Rightarrow> Tree option" where
  "ts_stack_last_external_token s v = last_external_token (s ! v)"

text \<open>
  Modelled from the spec: \<open>halt(v)\<close>, \<open>remove_version\<close> and \<open>swap_versions\<close>. A halted
  version stays in the array until it is removed; removing a version shifts the later
  ones down by one.
\<close>

definition ts_stack_halt :: "Stack \<Rightarrow> StackVersion \<Rightarrow> Stack" where
  "ts_stack_halt s v = s[v := (s ! v)\<lparr> status := StackStatusHalted \<rparr>]"

definition ts_stack_remove_version :: "Stack \<Rightarrow> StackVersion \<Rightarrow> Stack" where
  "ts_stack_remove_version s v = take v s @ drop (Suc v) s"

definition ts_stack_swap_versions :: "Stack \<Rightarrow> StackVersion \<Rightarrow> StackVersion \<Rightarrow> Stack" where
  "ts_stack_swap_versions s v1 v2 = s[v1 := s ! v2, v2 := s ! v1]"

text \<open>
  Modelled from the spec: the external-token state of a version is that of its last
  external token, and the empty state when there is none.
\<close>

definition ts_tree_external_token_state_eq :: "Tree option \<Rightarrow> Tree option \<Rightarrow> bool" where
  "ts_tree_external_token_state_eq a b =
     ((case a of None \<Rightarrow> [] | Some t \<Rightarrow> external_token_state (scalars t)) =
      (case b of None \<Rightarrow> [] | Some t \<Rightarrow> external_token_state (scalars t)))"

text \<open>
  Modelled from the spec: "merging two heads is allowed iff their keys match", the key
  being (state, position, last-external-token-state); \<open>merge(a, b)\<close> "combines
  predecessors": the head of \<open>a\<close> gets the edges of both nodes and version \<open>b\<close> is
  removed. The result is the flag the C function returns, with the stack.
\<close>

definition ts_stack_can_merge :: "Stack \<Rightarrow> StackVersion \<Rightarrow> StackVersion \<Rightarrow> bool" where
  "ts_stack_can_merge s v1 v2 =
     (node_state (node (s ! v1)) = node_state (node (s ! v2)) \<and>
      node_position (node (s ! v1)) = node_position (node (s ! v2)) \<and>
      ts_tree_external_token_state_eq (last_external_token (s ! v1))
        (last_external_token (s ! v2)))"

definition stack_node_add_links :: "StackNode \<Rightarrow> StackNode \<Rightarrow> StackNode" where
  "stack_node_add_links n1 n2 =
     StackNode (node_state n1) (node_position n1) (node_error_cost n1) (node_node_count n1)
       (node_dynamic_precedence n1) (links n1 @ links n2)"

definition ts_stack_merge :: "Stack \<Rightarrow> StackVersion \<Rightarrow> StackVersion \<Rightarrow> bool \<times> Stack" where
  "ts_stack_merge s v1 v2 =
     (if ts_stack_can_merge s v1 v2
      then (True,
            ts_stack_remove_version
              (s[v1 := (s ! v1)\<lparr> node := stack_node_add_links (node (s ! v1)) (node (s ! v2)) \<rparr>])
              v2)
      else (False, s))"

lemma ts_stack_remove_version_length:
  "v < length s \<Longrightarrow> length (ts_stack_remove_version s v) = length s - 1"
  by (simp add: ts_stack_remove_version_def)

lemma ts_stack_merge_length:
  "v2 < length s \<Longrightarrow> fst (ts_stack_merge s v1 v2) \<Longrightarrow>
     length (snd (ts_stack_merge s v1 v2)) = length s - 1"
  by (simp add: ts_stack_merge_def ts_stack_remove_version_def split: if_splits)

text \<open>
  Modelled from the spec: the total size of a tree is its padding plus its size, and
  \<open>push(v, tree, pending?, state)\<close> puts a new node on top of the head of \<open>v\<close>. The new
  node is in the given state; its position is the old one advanced by the total size of
  the tree, its error cost and dynamic precedence are the old ones plus the tree's, and
  its count of nodes since the last error is \<open>0\<close> in \<open>ERROR_STATE\<close> and one more than the
  old one elsewhere. A null tree (a discontinuity) changes none of the sums.
\<close>

definition ts_tree_total_size :: "Tree \<Rightarrow> Length" where
  "ts_tree_total_size t = length_add (padding (scalars t)) (tree_size (scalars t))"

definition ts_tree_total_bytes :: "Tree \<Rightarrow> uint32" where
  "ts_tree_total_bytes t = bytes (padding (scalars t)) + bytes (tree_size (scalars t))"

definition stack_node_new :: "StackNode \<Rightarrow> Tree option \<Rightarrow> bool \<Rightarrow> TSStateId \<Rightarrow> StackNode" where
  "stack_node_new previous_node tree pending st =
     StackNode st
       (case tree of None \<Rightarrow> node_position previous_node
        | Some t \<Rightarrow> length_add (node_position previous_node) (ts_tree_total_size t))
       (case tree of None \<Rightarrow> node_error_cost previous_node
        | Some t \<Rightarrow> node_error_cost previous_node + error_cost (scalars t))
       (if st = ERROR_STATE then 0 else node_node_count previous_node + 1)
       (case tree of None \<Rightarrow> node_dynamic_precedence previous_node
        | Some t \<Rightarrow> node_dynamic_precedence previous_node + dynamic_precedence (scalars t))
       [(previous_node, tree, pending)]"

definition ts_stack_push ::
  "Stack \<Rightarrow> StackVersion \<Rightarrow> Tree option \<Rightarrow> bool \<Rightarrow> TSStateId \<Rightarrow> Stack" where
  "ts_stack_push s v tree pending st =
     s[v := (s ! v)\<lparr> node := stack_node_new (node (s ! v)) tree pending st \<rparr>]"


definition ts_stack_copy_version :: "Stack \<Rightarrow> StackVersion \<Rightarrow> StackVersion \<times> Stack" where
  "ts_stack_copy_version s v = (length s, s @ [s ! v])"

text \<open>
  Modelled from the spec: \<open>pop_count(v, n)\<close> "returns all distinct paths of length n as
  StackSlice{version, trees[]} -- may create new version ids", \<open>pop_all(v)\<close> the paths down
  to the bottom of the stack, \<open>pop_pending(v)\<close> the top entry when it is pending.
  A path is the list of its trees, bottom first (a discontinuity has no tree), with the
  node it ends at. Every path gets a slice. Paths that end at the same node share a
  version, and their slices are adjacent; the first path to a node gets a new version,
  appended to the versions: an active head at that node, with the last external token of
  the popped version. The popped version itself stays as it is: the parser renumbers or
  removes the new versions afterwards. Only \<open>pop_pending\<close> renumbers its first slice to
  the popped version itself.
\<close>

record StackSlice =
  slice_trees :: "Tree list"
  slice_version :: StackVersion

definition link_trees :: "Tree option \<Rightarrow> Tree list" where
  "link_trees tree = (case tree of None \<Rightarrow> [] | Some t \<Rightarrow> [t])"

fun stack_paths :: "nat \<Rightarrow> StackNode \<Rightarrow> (Tree list \<times> StackNode) list" where
  "stack_paths 0 nd = [([], nd)]"
| "stack_paths (Suc n) nd =
     concat (map (\<lambda>l. map (\<lambda>p. (fst p @ link_trees (fst (snd l)), snd p))
                          (stack_paths n (fst l)))
                 (links nd))"





text \<open>
  The index after the last slice whose version has its head at the node, if there is
  one.
\<close>

fun stack_find_slice :: "Stack \<Rightarrow> StackNode \<Rightarrow> StackSlice list \<Rightarrow> nat option" where
  "stack_find_slice s nd [] = None"
| "stack_find_slice s nd (x # xs) =
     (case stack_find_slice s nd xs of
        Some k \<Rightarrow> Some (Suc k)
      | None \<Rightarrow> (if node (s ! slice_version x) = nd then Some 1 else None))"

definition stack_add_slice ::
  "StackHead \<Rightarrow> StackSlice list \<times> Stack \<Rightarrow> Tree list \<times> StackNode \<Rightarrow> StackSlice list \<times> Stack" where
  "stack_add_slice original acc path =
     (let slices = fst acc; s = snd acc
      in case stack_find_slice s (snd path) slices of
           Some k \<Rightarrow>
             (take k slices @
                [\<lparr> slice_trees = fst path,
                   slice_version = slice_version (slices ! (k - 1)) \<rparr>] @
              drop k slices, s)
         | None \<Rightarrow>
             (slices @ [\<lparr> slice_trees = fst path, slice_version = length s \<rparr>],
              s @ [\<lparr> node = snd path, status = StackStatusActive,
                       last_external_token = last_external_token original,
                       lookahead_when_paused = 0 \<rparr>]))"

definition stack_pop_paths ::
  "Stack \<Rightarrow> StackVersion \<Rightarrow> (Tree list \<times> StackNode) list \<Rightarrow> StackSlice list \<times> Stack" where
  "stack_pop_paths s v paths = foldl (stack_add_slice (s ! v)) ([], s) paths"

definition ts_stack_pop_count ::
  "Stack \<Rightarrow> StackVersion \<Rightarrow> nat \<Rightarrow> StackSlice list \<times> Stack" where
  "ts_stack_pop_count s v n = stack_pop_paths s v (stack_paths n (node (s ! v)))"



text \<open>\<open>parser__version_status\<close> (runtime/parser.c).\<close>

definition parser__version_status :: "uint32 \<Rightarrow> Stack \<Rightarrow> StackVersion \<Rightarrow> ErrorStatus" where
  "parser__version_status skipped_tree_cost s version =
     (let cost0 = ts_stack_error_cost s version;
          is_paused = ts_stack_is_paused s version;
          cost1 = (if is_paused then cost0 + skipped_tree_cost else cost0)
      in \<lparr> cost = cost1,
           node_count = ts_stack_node_count_since_error s version,
           status_dynamic_precedence = ts_stack_dynamic_precedence s version,
           is_in_error = (is_paused \<or> ts_stack_state s version = ERROR_STATE) \<rparr>)"

section \<open>The lexer and the language\<close>

text \<open>
  Modelled from the spec: runtime/lexer.c is not among the sources. The lexer reads the
  input one byte at a time: \<open>lookahead\<close> is the byte at the current position and \<open>0\<close> at the
  end of the input; \<open>advance\<close> moves one byte forward (to the next row after a newline)
  and does nothing at the end of the input. \<open>ts_lexer_reset\<close> moves the lexer to a
  position, \<open>ts_lexer_start\<close> begins a token at the current position with an undefined
  end, \<open>ts_lexer_advance_to_end\<close> drives the lexer to the end of the input.
\<close>

record TSLexer =
  lookahead :: int32
  result_symbol :: TSSymbol

record Lexer =
  data :: TSLexer
  current_position :: Length
  token_start_position :: Length
  token_end_position :: Length
  input :: "8 word list"

definition LENGTH_UNDEFINED :: Length where
  "LENGTH_UNDEFINED = \<lparr> bytes = 0, extent = \<lparr> row = 0, column = 1 \<rparr> \<rparr>"

definition length_is_undefined :: "Length \<Rightarrow> bool" where
  "length_is_undefined l = (bytes l = 0 \<and> column (extent l) \<noteq> 0)"

definition lookahead_at :: "8 word list \<Rightarrow> Length \<Rightarrow> int32" where
  "lookahead_at inp pos =
     (if unat (bytes pos) < length inp then ucast (inp ! unat (bytes pos)) else 0)"

definition ts_lexer_reset :: "Lexer \<Rightarrow> Length \<Rightarrow> Lexer" where
  "ts_lexer_reset lx pos =
     lx\<lparr> current_position := pos, token_start_position := pos,
         token_end_position := LENGTH_UNDEFINED,
         data := (data lx)\<lparr> lookahead := lookahead_at (input lx) pos \<rparr> \<rparr>"

definition ts_lexer_start :: "Lexer \<Rightarrow> Lexer" where
  "ts_lexer_start lx =
     lx\<lparr> token_start_position := current_position lx,
         token_end_position := LENGTH_UNDEFINED,
         data := \<lparr> lookahead = lookahead_at (input lx) (current_position lx),
                   result_symbol = 0 \<rparr> \<rparr>"

definition ts_lexer_advance :: "Lexer \<Rightarrow> bool \<Rightarrow> Lexer" where
  "ts_lexer_advance lx skip =
     (if unat (bytes (current_position lx)) < length (input lx) then
        (let cur = current_position lx;
             pos = \<lparr> bytes = bytes cur + 1,
                     extent = (if lookahead (data lx) = 10
                               then \<lparr> row = row (extent cur) + 1, column = 0 \<rparr>
                               else \<lparr> row = row (extent cur),
                                      column = column (extent cur) + 1 \<rparr>) \<rparr>
         in lx\<lparr> current_position := pos,
                token_start_position := (if skip then pos else token_start_position lx),
                data := (data lx)\<lparr> lookahead := lookahead_at (input lx) pos \<rparr> \<rparr>)
      else lx)"

text \<open>
  Modelled from the spec: \<open>ts_lexer_advance_to_end\<close> of runtime/lexer.c "drives the lexer
  to the end of the input": it advances once for every byte between the current position
  and the end.
\<close>

definition ts_lexer_advance_to_end :: "Lexer \<Rightarrow> Lexer" where
  "ts_lexer_advance_to_end lx =
     ((\<lambda>l. ts_lexer_advance l False) ^^
        (length (input lx) - unat (bytes (current_position lx)))) lx"

text \<open>
  The language (\<open>TSLanguage\<close> of tree_sitter/parser.h and the accessors of
  runtime/language.c, which are not among the sources): the tables and functions that the
  parser reads, each a field. \<open>lex_fn\<close>, \<open>keyword_lex_fn\<close> and the external scanner's \<open>scan\<close>
  run on the lexer and return their verdict with the lexer they leave; the scanner also
  leaves its payload, a block of bytes. \<open>enabled_external_tokens\<close> is \<open>None\<close> for the null
  pointer that \<open>ts_language_enabled_external_tokens\<close> returns when no external token is
  valid.
\<close>

datatype TSParseAction =
  TSParseActionTypeShift TSStateId bool bool
| TSParseActionTypeReduce TSSymbol "8 word" int32 "16 word"
| TSParseActionTypeAccept
| TSParseActionTypeRecover

record TableEntry =
  entry_actions :: "TSParseAction list"
  is_reusable :: bool
  entry_depends_on_lookahead :: bool

type_synonym ScannerPayload = "8 word list"

record TSLanguage =
  symbol_visible :: "TSSymbol \<Rightarrow> bool"
  lex_modes :: "TSStateId \<Rightarrow> TSLexMode"
  lex_fn :: "Lexer \<Rightarrow> 16 word \<Rightarrow> bool \<times> Lexer"
  keyword_lex_fn :: "Lexer \<Rightarrow> 16 word \<Rightarrow> bool \<times> Lexer"
  keyword_capture_token :: TSSymbol
  external_scan :: "ScannerPayload \<Rightarrow> Lexer \<Rightarrow> bool list \<Rightarrow> bool \<times> ScannerPayload \<times> Lexer"
  external_serialize :: "ScannerPayload \<Rightarrow> 8 word list"
  external_deserialize :: "ScannerPayload \<Rightarrow> 8 word list \<Rightarrow> ScannerPayload"
  external_symbol_map :: "TSSymbol \<Rightarrow> TSSymbol"
  enabled_external_tokens :: "16 word \<Rightarrow> bool list option"
  table_entry :: "TSStateId \<Rightarrow> TSSymbol \<Rightarrow> TableEntry"
  next_state :: "TSStateId \<Rightarrow> TSSymbol \<Rightarrow> TSStateId"

definition ts_language_has_actions :: "TSLanguage \<Rightarrow> TSStateId \<Rightarrow> TSSymbol \<Rightarrow> bool" where
  "ts_language_has_actions lang st smb = (entry_actions (table_entry lang st smb) \<noteq> [])"

text \<open>
  Modelled from the spec: \<open>make_error(size, padding, first_error_char, lang)\<close> of
  runtime/tree.c is a leaf of the error symbol, fragile on both sides.
\<close>

definition ts_tree_make_error :: "TSLanguage \<Rightarrow> Length \<Rightarrow> Length \<Rightarrow> int32 \<Rightarrow> Tree" where
  "ts_tree_make_error lang sz pad first_error_character =
     (let leaf = ts_tree_make_leaf (symbol_visible lang) ts_builtin_sym_error pad sz
      in Tree ((scalars leaf)\<lparr> fragile_left := True, fragile_right := True \<rparr>) (children leaf))"

section \<open>Lexing a token\<close>

text \<open>\<open>parser__restore_external_scanner\<close> (runtime/parser.c).\<close>

definition parser__restore_external_scanner ::
  "TSLanguage \<Rightarrow> ScannerPayload \<Rightarrow> Tree option \<Rightarrow> ScannerPayload" where
  "parser__restore_external_scanner lang pl external_token =
     (case external_token of
        Some t \<Rightarrow> external_deserialize lang pl (external_token_state (scalars t))
      | None \<Rightarrow> external_deserialize lang pl [])"

text \<open>
  The local variables of \<open>parser__lex\<close> (runtime/parser.c) that its loop changes, with the
  lexer and the scanner's payload. \<open>cur_lex_mode\<close> is the C variable \<open>lex_mode\<close>. The field
  \<open>attempts\<close> is a history variable that the C code does not have: the byte positions at
  which the external scanner, the internal lexer and the skipping of an erroneous
  character left the lexer, latest first. Nothing is computed from it.
\<close>

record LexLoop =
  lexer :: Lexer
  payload :: ScannerPayload
  cur_lex_mode :: TSLexMode
  valid_external_tokens :: "bool list option"
  found_external_token :: bool
  error_mode :: bool
  skipped_error :: bool
  first_error_character :: int32
  error_start_position :: Length
  error_end_position :: Length
  last_byte_scanned :: uint32
  attempts :: "uint32 list"

text \<open>
  The attempt with the external scanner at the top of the loop body (lines 248 to 276).
  \<open>parser__lex_external_scan\<close> starts a token, restores the scanner and scans; when the
  scanner succeeds without marking the end of the token, the token ends where the lexer
  is. \<open>parser__lex_external\<close> is \<open>True\<close> when the loop is left with an external token.
\<close>

definition parser__lex_external_scan ::
  "TSLanguage \<Rightarrow> Tree option \<Rightarrow> LexLoop \<Rightarrow> bool list \<Rightarrow> bool \<times> ScannerPayload \<times> Lexer" where
  "parser__lex_external_scan lang external_token st valid =
     (let r = external_scan lang
                (parser__restore_external_scanner lang (payload st) external_token)
                (ts_lexer_start (lexer st)) valid;
          lx = snd (snd r)
      in (fst r, fst (snd r),
          if fst r \<and> length_is_undefined (token_end_position lx)
          then lx\<lparr> token_end_position := current_position lx \<rparr> else lx))"

definition parser__lex_external ::
  "TSLanguage \<Rightarrow> Tree option \<Rightarrow> LexLoop \<Rightarrow> bool \<times> LexLoop" where
  "parser__lex_external lang external_token st =
     (case valid_external_tokens st of
        None \<Rightarrow> (False, st)
      | Some valid \<Rightarrow>
          (let current = current_position (lexer st);
               r = parser__lex_external_scan lang external_token st valid;
               lx = snd (snd r);
               seen = bytes (current_position lx) # attempts st
           in if fst r \<and> (\<not> error_mode st \<or>
                           bytes current < bytes (token_end_position lx))
              then (True, st\<lparr> lexer := lx, payload := fst (snd r),
                              found_external_token := True, attempts := seen \<rparr>)
              else (False,
                    st\<lparr> lexer := ts_lexer_reset lx current, payload := fst (snd r),
                        last_byte_scanned :=
                          (if last_byte_scanned st < bytes (current_position lx)
                           then bytes (current_position lx) else last_byte_scanned st),
                        attempts := seen \<rparr>)))"

text \<open>
  The rest of the loop body (lines 278 to 319), after an external attempt that did not
  leave the loop: \<open>True\<close> when the loop is left.
\<close>

definition parser__lex_internal ::
  "TSLanguage \<Rightarrow> Length \<Rightarrow> LexLoop \<Rightarrow> bool \<times> LexLoop" where
  "parser__lex_internal lang start_position st =
     (let r = lex_fn lang (ts_lexer_start (lexer st)) (lex_state (cur_lex_mode st));
          lx = snd r;
          seen = bytes (current_position lx) # attempts st
      in if fst r then (True, st\<lparr> lexer := lx, attempts := seen \<rparr>)
         else if \<not> error_mode st then
           (False,
            st\<lparr> lexer := ts_lexer_reset lx start_position,
                error_mode := True,
                cur_lex_mode := lex_modes lang ERROR_STATE,
                valid_external_tokens :=
                  enabled_external_tokens lang (external_lex_state (lex_modes lang ERROR_STATE)),
                last_byte_scanned :=
                  (if last_byte_scanned st < bytes (current_position lx)
                   then bytes (current_position lx) else last_byte_scanned st),
                attempts := seen \<rparr>)
         else
           (let st1 = (if \<not> skipped_error st
                       then st\<lparr> skipped_error := True,
                                error_start_position := token_start_position lx,
                                error_end_position := token_start_position lx,
                                first_error_character := lookahead (data lx) \<rparr>
                       else st)
            in if bytes (current_position lx) = bytes (error_end_position st1) then
                 (if lookahead (data lx) = 0
                  then (True,
                        st1\<lparr> lexer := lx\<lparr> data := (data lx)\<lparr> result_symbol := ts_builtin_sym_error \<rparr> \<rparr>,
                             attempts := seen \<rparr>)
                  else (let lx' = ts_lexer_advance lx False
                        in (False,
                            st1\<lparr> lexer := lx', error_end_position := current_position lx',
                                 attempts := bytes (current_position lx') # seen \<rparr>)))
               else (False,
                     st1\<lparr> lexer := lx, error_end_position := current_position lx,
                          attempts := seen \<rparr>)))"

definition parser__lex_iteration ::
  "TSLanguage \<Rightarrow> Length \<Rightarrow> Tree option \<Rightarrow> LexLoop \<Rightarrow> bool \<times> LexLoop" where
  "parser__lex_iteration lang start_position external_token st =
     (let e = parser__lex_external lang external_token st
      in if fst e then e else parser__lex_internal lang start_position (snd e))"

text \<open>
  The loop \<open>for (;;)\<close> of \<open>parser__lex\<close>. Nothing forces the functions of the language to
  make progress, so the loop may run forever: the result is \<open>None\<close> then.
\<close>

partial_function (option) parser__lex_loop ::
  "TSLanguage \<Rightarrow> Length \<Rightarrow> Tree option \<Rightarrow> LexLoop \<Rightarrow> LexLoop option" where
  "parser__lex_loop lang start_position external_token st =
     (let r = parser__lex_iteration lang start_position external_token st
      in if fst r then Some (snd r)
         else parser__lex_loop lang start_position external_token (snd r))"

text \<open>The variables as the declarations before the loop set them (lines 228 to 243).\<close>

definition parser__lex_init ::
  "TSLanguage \<Rightarrow> Lexer \<Rightarrow> ScannerPayload \<Rightarrow> Length \<Rightarrow> TSStateId \<Rightarrow> LexLoop" where
  "parser__lex_init lang lx pl start_position parse_state0 =
     \<lparr> lexer = ts_lexer_reset lx start_position,
       payload = pl,
       cur_lex_mode = lex_modes lang parse_state0,
       valid_external_tokens =
         enabled_external_tokens lang (external_lex_state (lex_modes lang parse_state0)),
       found_external_token = False,
       error_mode = (parse_state0 = ERROR_STATE),
       skipped_error = False,
       first_error_character = 0,
       error_start_position = length_zero,
       error_end_position = length_zero,
       last_byte_scanned = bytes start_position,
       attempts = [] \<rparr>"

text \<open>
  \<open>last_byte_scanned\<close> after the loop (lines 322 to 324), and the tree that the lines 326
  to 369 build from the variables the loop left.
\<close>

definition parser__lex_last_byte_scanned :: "LexLoop \<Rightarrow> uint32" where
  "parser__lex_last_byte_scanned st =
     (if last_byte_scanned st < bytes (current_position (lexer st))
      then bytes (current_position (lexer st)) else last_byte_scanned st)"

definition parser__lex_keyword :: "TSLanguage \<Rightarrow> TSStateId \<Rightarrow> Lexer \<Rightarrow> TSSymbol" where
  "parser__lex_keyword lang parse_state0 lx =
     (let smb = result_symbol (data lx);
          end_byte = bytes (token_end_position lx);
          r = keyword_lex_fn lang (ts_lexer_start (ts_lexer_reset lx (token_start_position lx))) 0
      in if fst r \<and> bytes (token_end_position (snd r)) = end_byte \<and>
            ts_language_has_actions lang parse_state0 (result_symbol (data (snd r)))
         then result_symbol (data (snd r)) else smb)"

definition parser__lex_result ::
  "TSLanguage \<Rightarrow> Length \<Rightarrow> TSStateId \<Rightarrow> LexLoop \<Rightarrow> Tree" where
  "parser__lex_result lang start_position parse_state0 st =
     (let last = parser__lex_last_byte_scanned st;
          result =
            (if skipped_error st then
               ts_tree_make_error lang
                 (length_sub (error_end_position st) (error_start_position st))
                 (length_sub (error_start_position st) start_position)
                 (first_error_character st)
             else
               (let lx0 = lexer st;
                    lx = (if bytes (token_end_position lx0) < bytes (token_start_position lx0)
                          then lx0\<lparr> token_start_position := token_end_position lx0 \<rparr> else lx0);
                    smb0 = result_symbol (data lx);
                    pad = length_sub (token_start_position lx) start_position;
                    sz = length_sub (token_end_position lx) (token_start_position lx);
                    smb = (if found_external_token st then external_symbol_map lang smb0
                           else if smb0 = keyword_capture_token lang \<and> smb0 \<noteq> 0
                           then parser__lex_keyword lang parse_state0 lx
                           else smb0);
                    leaf = ts_tree_make_leaf (symbol_visible lang) smb pad sz
                in if found_external_token st
                   then Tree ((scalars leaf)\<lparr> has_external_tokens := True,
                                external_token_state := external_serialize lang (payload st) \<rparr>)
                          (children leaf)
                   else leaf))
      in Tree ((scalars result)\<lparr> bytes_scanned := last - bytes start_position + 1,
                  parse_state := parse_state0,
                  first_leaf := (first_leaf (scalars result))\<lparr> lex_mode := cur_lex_mode st \<rparr> \<rparr>)
           (children result))"

text \<open>
  \<open>parser__lex\<close>: the token at the position of a stack version, lexed in a parse state.
  The result is the tree with the variables that the loop left (the lexer and the payload
  among them), and \<open>None\<close> when the loop does not end.
\<close>

definition parser__lex ::
  "TSLanguage \<Rightarrow> Lexer \<Rightarrow> ScannerPayload \<Rightarrow> Stack \<Rightarrow> StackVersion \<Rightarrow> TSStateId \<Rightarrow>
     (Tree \<times> LexLoop) option" where
  "parser__lex lang lx pl s version parse_state0 =
     (let start_position = ts_stack_position s version;
          external_token = ts_stack_last_external_token s version
      in map_option
           (\<lambda>st. (parser__lex_result lang start_position parse_state0 st, st))
           (parser__lex_loop lang start_position external_token
              (parser__lex_init lang lx pl start_position parse_state0)))"

text \<open>
  What the lexing functions of a language may be relied on for: on an input shorter than
  \<open>2 ^ 32\<close> bytes, \<open>lex_fn\<close> and the external scanner leave the lexer at or after the
  position where they found it and do not touch the input (they can only call \<open>advance\<close>
  and \<open>mark_end\<close>).
\<close>

definition lexing_moves_forward :: "TSLanguage \<Rightarrow> bool" where
  "lexing_moves_forward lang =
     ((\<forall>lx ls. length (input lx) < 2 ^ 32 \<longrightarrow>
          bytes (current_position lx) \<le> bytes (current_position (snd (lex_fn lang lx ls))) \<and>
          input (snd (lex_fn lang lx ls)) = input lx) \<and>
      (\<forall>pl lx valid. length (input lx) < 2 ^ 32 \<longrightarrow>
          bytes (current_position lx)
            \<le> bytes (current_position (snd (snd (external_scan lang pl lx valid)))) \<and>
          input (snd (snd (external_scan lang pl lx valid))) = input lx))"

text \<open>
  The invariant of the loop of \<open>parser__lex\<close>: every position that an attempt reached is
  at most the larger of \<open>last_byte_scanned\<close> and the lexer's position, \<open>last_byte_scanned\<close>
  is at least the start, and the input is unchanged.
\<close>

definition lex_inv :: "uint32 \<Rightarrow> 8 word list \<Rightarrow> LexLoop \<Rightarrow> bool" where
  "lex_inv start inp st =
     (list_all (\<lambda>p. p \<le> parser__lex_last_byte_scanned st) (attempts st) \<and>
      start \<le> last_byte_scanned st \<and> input (lexer st) = inp)"

section \<open>Reductions\<close>

text \<open>
  Modelled from the spec: \<open>ts_tree_set_children\<close> and \<open>ts_tree_make_node\<close> live in
  runtime/tree.c, which is not among the sources. "Setting children recomputes dependent
  fields": the padding of a node is that of its first child, its size reaches from there
  to the end of its last child (so a node's size plus padding is the sum of its
  children's), its error cost and dynamic precedence are the sums of its children's (the
  intrinsic penalty of an error node, which the specification does not quantify, is left
  out), it has external tokens when a child has, and its first leaf is that of its first
  child of nonzero width. \<open>make_node(symbol, children, alias_seq, lang)\<close> is a node of
  that symbol and alias sequence with these children; an error node is fragile.
\<close>

definition ts_tree_set_children :: "TreeFields \<Rightarrow> Tree list \<Rightarrow> Tree" where
  "ts_tree_set_children f cs =
     Tree (f\<lparr> padding := (case cs of [] \<Rightarrow> length_zero | c # rest \<Rightarrow> padding (scalars c)),
              tree_size :=
                (case cs of [] \<Rightarrow> length_zero
                 | c # rest \<Rightarrow>
                     foldl length_add (tree_size (scalars c)) (map ts_tree_total_size rest)),
              error_cost := sum_list (map (\<lambda>c. error_cost (scalars c)) cs),
              dynamic_precedence := sum_list (map (\<lambda>c. dynamic_precedence (scalars c)) cs),
              has_external_tokens := list_ex (\<lambda>c. has_external_tokens (scalars c)) cs,
              first_leaf :=
                (case filter (\<lambda>c. ts_tree_total_bytes c \<noteq> 0) cs of
                   [] \<Rightarrow> first_leaf f
                 | c # rest \<Rightarrow> first_leaf (scalars c)) \<rparr>) cs"

definition ts_tree_make_node ::
  "TSLanguage \<Rightarrow> TSSymbol \<Rightarrow> Tree list \<Rightarrow> 16 word \<Rightarrow> Tree" where
  "ts_tree_make_node lang smb cs alias =
     (let leaf = scalars (ts_tree_make_leaf (symbol_visible lang) smb length_zero length_zero)
      in ts_tree_set_children
           (leaf\<lparr> alias_sequence_id := alias,
                  fragile_left := (smb = ts_builtin_sym_error),
                  fragile_right := (smb = ts_builtin_sym_error) \<rparr>) cs)"


text \<open>
  \<open>TS_TREE_STATE_NONE\<close> is a macro of runtime/tree.h, which is not among the sources: the
  state \<open>USHRT_MAX\<close> that no parse state has.
\<close>

definition TS_TREE_STATE_NONE :: TSStateId where
  "TS_TREE_STATE_NONE = - 1"

text \<open>
  \<open>parser__replace_children\<close> (runtime/parser.c): the tree with the other children, when
  \<open>parser__select_tree\<close> takes it, and the flag returned.
\<close>

definition parser__replace_children :: "Tree \<Rightarrow> Tree list \<Rightarrow> bool \<times> Tree" where
  "parser__replace_children tree cs =
     (let scratch_tree = ts_tree_set_children (scalars tree) cs
      in if parser__select_tree (Some tree) (Some scratch_tree) then (True, scratch_tree)
         else (False, tree))"

text \<open>
  \<open>parser__reduce\<close> (runtime/parser.c). The children of a slice are its trees without the
  extra ones at the end (lines 592 to 595).
\<close>

fun strip_trailing_extras :: "Tree list \<Rightarrow> Tree list" where
  "strip_trailing_extras [] = []"
| "strip_trailing_extras (t # ts) =
     (if strip_trailing_extras ts = [] \<and> extra (scalars t) then []
      else t # strip_trailing_extras ts)"

text \<open>
  The inner \<open>while\<close> loop (lines 605 to 621): the slices that follow with the same version
  offer their children to the parent. The result is the parent, the slice whose trees
  were kept and the slices that remain.
\<close>

fun parser__reduce_same_version ::
  "Tree \<Rightarrow> StackSlice \<Rightarrow> StackSlice list \<Rightarrow> Tree \<times> StackSlice \<times> StackSlice list" where
  "parser__reduce_same_version parent slc [] = (parent, slc, [])"
| "parser__reduce_same_version parent slc (next_slice # rest) =
     (if slice_version next_slice \<noteq> slice_version slc then (parent, slc, next_slice # rest)
      else
        (let r = parser__replace_children parent (strip_trailing_extras (slice_trees next_slice))
         in if fst r then parser__reduce_same_version (snd r) next_slice rest
            else parser__reduce_same_version parent slc rest))"

text \<open>
  The lines 643 to 655, entered when the version count exceeds \<open>MAX_VERSION_COUNT\<close>: the
  versions of the remaining slices are halted, and every version after the slc's is
  removed.
\<close>

function stack_remove_versions_after :: "Stack \<Rightarrow> StackVersion \<Rightarrow> Stack" where
  "stack_remove_versions_after s v =
     (if v + 1 < ts_stack_version_count s
      then stack_remove_versions_after (ts_stack_remove_version s (v + 1)) v
      else s)"
  by pat_completeness auto
termination
  by (relation "measure (\<lambda>(s, v). length s)")
     (auto simp: ts_stack_version_count_def ts_stack_remove_version_def)

declare stack_remove_versions_after.simps [simp del]

definition parser__reduce_excess :: "Stack \<Rightarrow> StackSlice \<Rightarrow> StackSlice list \<Rightarrow> Stack" where
  "parser__reduce_excess s slc rest =
     stack_remove_versions_after
       (foldl (\<lambda>s1 sl. ts_stack_halt s1 (slice_version sl)) s rest)
       (slice_version slc)"

text \<open>
  The body of the loop over the slices (lines 586 to 656), from the first slice that has
  not been dealt with. \<open>pop_size\<close> is the number of slices that the pop returned.
\<close>

definition parser__reduce_push ::
  "TSLanguage \<Rightarrow> bool \<Rightarrow> bool \<Rightarrow> nat \<Rightarrow> nat \<Rightarrow> TSSymbol \<Rightarrow> int32 \<Rightarrow> 16 word \<Rightarrow>
     Stack \<Rightarrow> Tree \<Rightarrow> StackSlice \<Rightarrow> Stack" where
  "parser__reduce_push lang fragile0 in_ambiguity0 pop_size initial_version_count smb
       dynamic_precedence0 alias s parent0 slc =
     (let st = ts_stack_state s (slice_version slc);
          next_st = next_state lang st smb;
          f1 = (scalars parent0)\<lparr> dynamic_precedence :=
                     dynamic_precedence (scalars parent0) + dynamic_precedence0,
                   alias_sequence_id := alias \<rparr>;
          f2 = (if fragile0 \<or> in_ambiguity0 \<or> 1 < pop_size \<or> 1 < initial_version_count
                then f1\<lparr> fragile_left := True, fragile_right := True,
                         parse_state := TS_TREE_STATE_NONE \<rparr>
                else f1\<lparr> parse_state := st \<rparr>);
          parent = Tree f2 (children parent0);
          s1 = ts_stack_push s (slice_version slc) (Some parent) False next_st
      in foldl (\<lambda>s2 t. ts_stack_push s2 (slice_version slc) (Some t) False next_st) s1
           (drop (length (children parent)) (slice_trees slc)))"

function parser__reduce_slices ::
  "TSLanguage \<Rightarrow> bool \<Rightarrow> bool \<Rightarrow> nat \<Rightarrow> nat \<Rightarrow> TSSymbol \<Rightarrow> int32 \<Rightarrow> 16 word \<Rightarrow>
     Stack \<Rightarrow> StackSlice list \<Rightarrow> Stack" where
  "parser__reduce_slices lang fragile0 in_ambiguity0 pop_size initial_version_count smb
       dynamic_precedence0 alias s [] = s"
| "parser__reduce_slices lang fragile0 in_ambiguity0 pop_size initial_version_count smb
       dynamic_precedence0 alias s (slice0 # slices) =
     (let parent0 = ts_tree_make_node lang smb (strip_trailing_extras (slice_trees slice0)) alias;
          r = parser__reduce_same_version parent0 slice0 slices;
          slc = fst (snd r);
          rest = snd (snd r);
          s1 = parser__reduce_push lang fragile0 in_ambiguity0 pop_size initial_version_count
                 smb dynamic_precedence0 alias s (fst r) slc
      in if MAX_VERSION_COUNT < ts_stack_version_count s1
         then parser__reduce_excess s1 slc rest
         else parser__reduce_slices lang fragile0 in_ambiguity0 pop_size initial_version_count
                smb dynamic_precedence0 alias s1 rest)"
  by pat_completeness auto

lemma parser__reduce_same_version_rest:
  "length (snd (snd (parser__reduce_same_version parent slc rest))) \<le> length rest"
  by (induction parent slc rest rule: parser__reduce_same_version.induct)
     (auto simp: Let_def le_SucI)

termination parser__reduce_slices
proof (relation "measure (\<lambda>(lang, fragile0, in_ambiguity0, pop_size, initial_version_count, smb,
                           dynamic_precedence0, al, s, slices). length slices)")
  show "wf (measure (\<lambda>(lang, fragile0, in_ambiguity0, pop_size, initial_version_count, smb,
                           dynamic_precedence0, al, s, slices). length slices))"
    by simp
next
  fix lang :: TSLanguage and fragile0 in_ambiguity0 :: bool and pop_size initial_version_count :: nat
    and smb :: TSSymbol and dynamic_precedence0 :: int32 and al :: "16 word" and s :: Stack
    and slice0 :: StackSlice and slices :: "StackSlice list" and parent0 r slc rest s1
  assume "r = parser__reduce_same_version parent0 slice0 slices" "rest = snd (snd r)"
  then have "length rest \<le> length slices"
    using parser__reduce_same_version_rest by simp
  then show "((lang, fragile0, in_ambiguity0, pop_size, initial_version_count, smb,
               dynamic_precedence0, al, s1, rest),
              (lang, fragile0, in_ambiguity0, pop_size, initial_version_count, smb,
               dynamic_precedence0, al, s, slice0 # slices))
        \<in> measure (\<lambda>(lang, fragile0, in_ambiguity0, pop_size, initial_version_count, smb,
                           dynamic_precedence0, al, s, slices). length slices)"
    by simp
qed

declare parser__reduce_slices.simps [simp del]

text \<open>
  The loops of lines 658 to 665, which merge the versions that the reduction created
  with one another. After a merge the outer index is decremented and incremented again.
\<close>

function parser__reduce_merge_into :: "Stack \<Rightarrow> nat \<Rightarrow> nat \<Rightarrow> Stack option" where
  "parser__reduce_merge_into s j i =
     (if j < i then
        (if fst (ts_stack_merge s j i) then Some (snd (ts_stack_merge s j i))
         else parser__reduce_merge_into s (j + 1) i)
      else None)"
  by pat_completeness auto
termination
  by (relation "measure (\<lambda>(s, j, i). i - j)") auto

declare parser__reduce_merge_into.simps [simp del]

lemma parser__reduce_merge_into_length:
  "i < length s \<Longrightarrow> parser__reduce_merge_into s j i = Some s' \<Longrightarrow> length s' = length s - 1"
proof (induction s j i rule: parser__reduce_merge_into.induct)
  case (1 s j i)
  then show ?case
    using parser__reduce_merge_into.simps[of s j i] ts_stack_merge_length[of i s j]
    by (auto split: if_splits)
qed

function parser__reduce_merge :: "Stack \<Rightarrow> nat \<Rightarrow> nat \<Rightarrow> Stack" where
  "parser__reduce_merge s initial_version_count i =
     (if i < ts_stack_version_count s then
        (case parser__reduce_merge_into s initial_version_count i of
           Some s' \<Rightarrow> parser__reduce_merge s' initial_version_count i
         | None \<Rightarrow> parser__reduce_merge s initial_version_count (i + 1))
      else s)"
  by pat_completeness auto
termination
proof (relation "measures [\<lambda>(s, n, i). length s, \<lambda>(s, n, i). length s - i]")
  show "wf (measures [\<lambda>(s, n, i). length s, \<lambda>(s, n, i). length s - i])" by simp
next
  fix s :: Stack and n i :: nat and s' :: Stack
  assume "i < ts_stack_version_count s" "parser__reduce_merge_into s n i = Some s'"
  then have "length s' = length s - 1" "i < length s"
    using parser__reduce_merge_into_length[of i s n s']
    by (simp_all add: ts_stack_version_count_def)
  then have "length s' < length s" by linarith
  then show "((s', n, i), (s, n, i))
      \<in> measures [\<lambda>(s, n, i). length s, \<lambda>(s, n, i). length s - i]"
    by simp
next
  fix s :: Stack and n i :: nat
  assume "i < ts_stack_version_count s"
  then show "((s, n, i + 1), (s, n, i))
      \<in> measures [\<lambda>(s, n, i). length s, \<lambda>(s, n, i). length s - i]"
    by (simp add: ts_stack_version_count_def)
qed

declare parser__reduce_merge.simps [simp del]

definition parser__reduce ::
  "TSLanguage \<Rightarrow> bool \<Rightarrow> Stack \<Rightarrow> StackVersion \<Rightarrow> TSSymbol \<Rightarrow> nat \<Rightarrow> int32 \<Rightarrow> 16 word \<Rightarrow> bool \<Rightarrow>
     StackSlice list \<times> Stack" where
  "parser__reduce lang in_ambiguity0 s version smb count dynamic_precedence0 alias fragile0 =
     (let initial_version_count = ts_stack_version_count s;
          pop = ts_stack_pop_count s version count;
          s1 = parser__reduce_slices lang fragile0 in_ambiguity0 (length (fst pop))
                 initial_version_count smb dynamic_precedence0 alias (snd pop) (fst pop)
      in (fst pop, parser__reduce_merge s1 initial_version_count initial_version_count))"

section \<open>Condensing the stack\<close>

text \<open>
  \<open>parser__condense_stack\<close> (runtime/parser.c), its first two loops. The function starts
  with two nested \<open>for\<close> loops over the versions \<open>i\<close> and, for each, the versions \<open>j < i\<close>.

  \<open>parser__condense_stack_inner\<close> is the loop over \<open>j\<close>, for the \<open>status_i\<close> that the outer
  loop computed when it reached \<open>i\<close>. Its result is the stack, the value of \<open>i\<close> and the
  flag \<open>made_changes\<close> when the loop is left. After \<open>i--; j = i\<close> the increment of the
  \<open>for\<close> makes \<open>j\<close> exceed \<open>i\<close>, so the loop is left; after \<open>i--; j--\<close> the increment
  restores \<open>j\<close> (also from the wrapped value when \<open>j\<close> was \<open>0\<close>).
\<close>

function parser__condense_stack_inner ::
  "uint32 \<Rightarrow> ErrorStatus \<Rightarrow> Stack \<Rightarrow> nat \<Rightarrow> nat \<Rightarrow> bool \<Rightarrow> Stack \<times> nat \<times> bool" where
  "parser__condense_stack_inner c status_i s i j made_changes =
     (if j < i then
        (case parser__compare_versions c (parser__version_status c s j) status_i of
           ErrorComparisonTakeLeft \<Rightarrow> (ts_stack_remove_version s i, i - 1, True)
         | ErrorComparisonPreferLeft \<Rightarrow>
             (if fst (ts_stack_merge s j i) then (snd (ts_stack_merge s j i), i - 1, True)
              else parser__condense_stack_inner c status_i s i (j + 1) made_changes)
         | ErrorComparisonNone \<Rightarrow>
             (if fst (ts_stack_merge s j i) then (snd (ts_stack_merge s j i), i - 1, True)
              else parser__condense_stack_inner c status_i s i (j + 1) made_changes)
         | ErrorComparisonPreferRight \<Rightarrow>
             (if fst (ts_stack_merge s j i) then (snd (ts_stack_merge s j i), i - 1, True)
              else parser__condense_stack_inner c status_i (ts_stack_swap_versions s i j) i
                     (j + 1) True)
         | ErrorComparisonTakeRight \<Rightarrow>
             parser__condense_stack_inner c status_i (ts_stack_remove_version s j) (i - 1) j True)
      else (s, i, made_changes))"
  by pat_completeness auto
termination
  by (relation "measure (\<lambda>(c, status_i, s, i, j, made_changes). i - j)") auto

declare parser__condense_stack_inner.simps [simp del]

text \<open>
  Every iteration of the inner loop that is entered with \<open>j < i < version_count\<close> leaves
  \<open>i\<close> below the version count, at the same distance from it.
\<close>

lemma parser__condense_stack_inner_distance:
  "i < length s \<Longrightarrow> parser__condense_stack_inner c status_i s i j m = (s', i', m') \<Longrightarrow>
     i' < length s' \<and> length s' - i' = length s - i"
proof (induction c status_i s i j m rule: parser__condense_stack_inner.induct)
  case (1 c status_i s i j made_changes)
  note unf = parser__condense_stack_inner.simps[of c status_i s i j made_changes]
  show ?case
  proof (cases "j < i")
    case False
    with "1.prems" unf show ?thesis by simp
  next
    case True
    then have lens: "length (ts_stack_remove_version s i) = length s - 1"
      "length (ts_stack_remove_version s j) = length s - 1"
      "length (ts_stack_swap_versions s i j) = length s"
      using "1.prems"(1)
      by (simp_all add: ts_stack_remove_version_length ts_stack_swap_versions_def)
    show ?thesis
    proof (cases "parser__compare_versions c (parser__version_status c s j) status_i")
      case ErrorComparisonTakeLeft
      with True "1.prems" lens unf show ?thesis by auto
    next
      case ErrorComparisonPreferLeft
      show ?thesis
      proof (cases "fst (ts_stack_merge s j i)")
        case m: True
        with True "1.prems" ErrorComparisonPreferLeft unf
          ts_stack_merge_length[of i s j] show ?thesis by auto
      next
        case m: False
        with True "1.prems" ErrorComparisonPreferLeft unf
          "1.IH"(1)[OF True ErrorComparisonPreferLeft m]
        show ?thesis by simp
      qed
    next
      case ErrorComparisonNone
      show ?thesis
      proof (cases "fst (ts_stack_merge s j i)")
        case m: True
        with True "1.prems" ErrorComparisonNone unf
          ts_stack_merge_length[of i s j] show ?thesis by auto
      next
        case m: False
        with True "1.prems" ErrorComparisonNone unf
          "1.IH"(2)[OF True ErrorComparisonNone m]
        show ?thesis by simp
      qed
    next
      case ErrorComparisonPreferRight
      show ?thesis
      proof (cases "fst (ts_stack_merge s j i)")
        case m: True
        with True "1.prems" ErrorComparisonPreferRight unf
          ts_stack_merge_length[of i s j] show ?thesis by auto
      next
        case m: False
        with True "1.prems" ErrorComparisonPreferRight lens unf
          "1.IH"(3)[OF True ErrorComparisonPreferRight m]
        show ?thesis by simp
      qed
    next
      case ErrorComparisonTakeRight
      have "i - 1 < length (ts_stack_remove_version s j)"
        using True "1.prems"(1) lens by simp
      with True "1.prems" ErrorComparisonTakeRight lens unf
        "1.IH"(4)[OF True ErrorComparisonTakeRight]
      show ?thesis by auto
    qed
  qed
qed

text \<open>
  \<open>parser__condense_stack_outer\<close> is the loop over \<open>i\<close> (lines 1170 to 1217). A halted
  version is removed and the scan goes on at the same index. Otherwise \<open>status_i\<close> is
  computed, the minimum error cost is updated and the inner loop runs from \<open>j = 0\<close>;
  the scan goes on at the index after the value of \<open>i\<close> that the inner loop left.
  The result is the stack, the minimum error cost and \<open>made_changes\<close>.
\<close>

function parser__condense_stack_outer ::
  "uint32 \<Rightarrow> Stack \<Rightarrow> nat \<Rightarrow> uint32 \<Rightarrow> bool \<Rightarrow> Stack \<times> uint32 \<times> bool" where
  "parser__condense_stack_outer c s i min_error_cost made_changes =
     (if i < ts_stack_version_count s then
        (if ts_stack_is_halted s i
         then parser__condense_stack_outer c (ts_stack_remove_version s i) i min_error_cost
                made_changes
         else
           (let status_i = parser__version_status c s i;
                min_error_cost' =
                  (if \<not> is_in_error status_i \<and> cost status_i < min_error_cost
                   then cost status_i else min_error_cost);
                r = parser__condense_stack_inner c status_i s i 0 made_changes
            in parser__condense_stack_outer c (fst r) (fst (snd r) + 1) min_error_cost'
                 (snd (snd r))))
      else (s, min_error_cost, made_changes))"
  by pat_completeness auto
termination
proof (relation "measure (\<lambda>(c, s, i, min_error_cost, made_changes). length s - i)")
  show "wf (measure (\<lambda>(c, s, i, min_error_cost, made_changes). length s - i))" by simp
next
  fix c :: uint32 and s :: Stack and i :: nat and min_error_cost :: uint32
    and made_changes :: bool
  assume "i < ts_stack_version_count s"
  then show "((c, ts_stack_remove_version s i, i, min_error_cost, made_changes),
              (c, s, i, min_error_cost, made_changes))
             \<in> measure (\<lambda>(c, s, i, min_error_cost, made_changes). length s - i)"
    by (simp add: ts_stack_version_count_def ts_stack_remove_version_length)
next
  fix c :: uint32 and s :: Stack and i :: nat and min_error_cost :: uint32
    and made_changes :: bool and status_i min' r
  assume a: "i < ts_stack_version_count s"
    and r: "r = parser__condense_stack_inner c status_i s i 0 made_changes"
  obtain s' i' m' where e: "parser__condense_stack_inner c status_i s i 0 made_changes = (s', i', m')"
    by (cases "parser__condense_stack_inner c status_i s i 0 made_changes") auto
  have "i' < length s' \<and> length s' - i' = length s - i"
    using parser__condense_stack_inner_distance[OF _ e] a
    by (simp add: ts_stack_version_count_def)
  then have "length s' - Suc i' < length s - i"
    by linarith
  then show "((c, fst r, fst (snd r) + 1, min', snd (snd r)),
              (c, s, i, min_error_cost, made_changes))
             \<in> measure (\<lambda>(c, s, i, min_error_cost, made_changes). length s - i)"
    using r e a by (simp add: ts_stack_version_count_def)
qed

declare parser__condense_stack_outer.simps [simp del]

text \<open>The loop of lines 1219 to 1222, which caps the number of versions.\<close>

function parser__condense_stack_cap :: "Stack \<Rightarrow> bool \<Rightarrow> Stack \<times> bool" where
  "parser__condense_stack_cap s made_changes =
     (if MAX_VERSION_COUNT < ts_stack_version_count s
      then parser__condense_stack_cap (ts_stack_remove_version s MAX_VERSION_COUNT) True
      else (s, made_changes))"
  by pat_completeness auto
termination
  by (relation "measure (\<lambda>(s, made_changes). length s)")
     (auto simp: ts_stack_version_count_def ts_stack_remove_version_length
        MAX_VERSION_COUNT_def)

declare parser__condense_stack_cap.simps [simp del]

text \<open>A head that has not been halted.\<close>

definition not_halted :: "StackHead \<Rightarrow> bool" where
  "not_halted h = (status h \<noteq> StackStatusHalted)"

section \<open>Accepting a tree and halting the parse\<close>












section \<open>Choosing the lookahead\<close>
























section \<open>The parse table of the compiler\<close>

text \<open>
  compiler/parse_table.h and compiler/parse_table.cc. \<open>rules::Symbol\<close>,
  \<open>PrecedenceRange\<close>, \<open>rules::Associativity\<close> and \<open>Production\<close> are declared in headers
  that are not among the sources: a symbol is modelled by its index, a precedence range by
  its two bounds, an associativity by a number, and the pointer to a production by an
  optional address. A \<open>std::map\<close> is a map, a \<open>std::vector\<close> a list.
\<close>

datatype Symbol = Symbol (index: int)

datatype ParseActionType =
  ParseActionTypeError
| ParseActionTypeShift
| ParseActionTypeReduce
| ParseActionTypeAccept

record ParseAction =
  type :: ParseActionType
  action_extra :: bool
  fragile :: bool
  action_symbol :: Symbol
  state_index :: "64 word"
  consumed_symbol_count :: "64 word"
  precedence_range :: "int \<times> int"
  associativity :: nat
  production :: "nat option"

record ParseTableEntry =
  actions :: "ParseAction list"
  reusable :: bool
  depends_on_lookahead :: bool

record ParseState =
  entries :: "Symbol \<rightharpoonup> ParseTableEntry"
  lex_state_id :: "64 word"

record ParseTableSymbolMetadata =
  metadata_extra :: bool
  structural :: bool

record ParseTable =
  states :: "ParseState list"
  error_state :: ParseState
  symbols :: "Symbol \<rightharpoonup> ParseTableSymbolMetadata"

text \<open>\<open>ParseAction::operator==\<close>: precedence range and associativity are not compared.\<close>

definition ParseAction_eq :: "ParseAction \<Rightarrow> ParseAction \<Rightarrow> bool" where
  "ParseAction_eq a other =
     (type a = type other \<and> action_extra a = action_extra other \<and>
      fragile a = fragile other \<and> action_symbol a = action_symbol other \<and>
      state_index a = state_index other \<and> production a = production other \<and>
      consumed_symbol_count a = consumed_symbol_count other)"

text \<open>The default constructor \<open>ParseTableEntry()\<close>.\<close>

definition ParseTableEntry_default :: ParseTableEntry where
  "ParseTableEntry_default = \<lparr> actions = [], reusable = True, depends_on_lookahead = False \<rparr>"

text \<open>
  \<open>std::map::operator[]\<close>: the value stored under the key, after a value-initialised one
  has been inserted when the key was absent (for \<open>ParseTableSymbolMetadata\<close> both flags
  false).
\<close>

definition symbols_at :: "ParseTable \<Rightarrow> Symbol \<Rightarrow> ParseTableSymbolMetadata" where
  "symbols_at t smb =
     (case symbols t smb of
        None \<Rightarrow> \<lparr> metadata_extra = False, structural = False \<rparr>
      | Some m \<Rightarrow> m)"

definition entries_at :: "ParseState \<Rightarrow> Symbol \<Rightarrow> ParseTableEntry" where
  "entries_at st smb =
     (case entries st smb of None \<Rightarrow> ParseTableEntry_default | Some e \<Rightarrow> e)"

text \<open>The position of the first action of the list that \<open>operator==\<close> equates with \<open>a\<close>.\<close>

fun find_action :: "ParseAction list \<Rightarrow> ParseAction \<Rightarrow> nat option" where
  "find_action [] a = None"
| "find_action (x # xs) a =
     (if ParseAction_eq x a then Some 0
      else map_option Suc (find_action xs a))"

text \<open>
  \<open>ParseTable::add_action\<close>. The C++ returns a reference to an element of the entry's
  action vector: the model returns the position of that element, with the table. Indexing
  \<open>states\<close> beyond its size is undefined in C++ and \<open>None\<close> here.
\<close>

definition add_action ::
  "ParseTable \<Rightarrow> nat \<Rightarrow> Symbol \<Rightarrow> ParseAction \<Rightarrow> (nat \<times> ParseTable) option" where
  "add_action t state_id smb action =
     (let t1 = (if action_extra action
                then t\<lparr>symbols := (symbols t)(smb \<mapsto> (symbols_at t smb)\<lparr>metadata_extra := True\<rparr>)\<rparr>
                else t\<lparr>symbols := (symbols t)(smb \<mapsto> (symbols_at t smb)\<lparr>structural := True\<rparr>)\<rparr>)
      in if state_id < length (states t1) then
           (let state = states t1 ! state_id;
                entry = entries_at state smb
            in case find_action (actions entry) action of
                 Some k \<Rightarrow>
                   Some (k, t1\<lparr>states := (states t1)[state_id := state\<lparr>entries := (entries state)(smb \<mapsto> entry)\<rparr>]\<rparr>)
               | None \<Rightarrow>
                   Some (length (actions entry),
                         t1\<lparr>states := (states t1)[state_id := state\<lparr>entries :=
                              (entries state)(smb \<mapsto> entry\<lparr>actions := actions entry @ [action]\<rparr>)\<rparr>]\<rparr>))
         else None)"

section \<open>Concrete inputs\<close>

text \<open>A leaf of a given symbol, error cost and dynamic precedence, every symbol visible.\<close>

definition example_leaf :: "TSSymbol \<Rightarrow> uint32 \<Rightarrow> int32 \<Rightarrow> Tree" where
  "example_leaf smb ec dp =
     Tree ((scalars (ts_tree_make_leaf (\<lambda>_. True) smb length_zero length_zero))
             \<lparr> error_cost := ec, dynamic_precedence := dp \<rparr>) []"

text \<open>A stack head on a node without predecessors.\<close>

definition example_head :: "TSStateId \<Rightarrow> uint32 \<Rightarrow> int32 \<Rightarrow> StackStatus \<Rightarrow> StackHead" where
  "example_head st ec dp stat =
     \<lparr> node = StackNode st length_zero ec 0 dp [], status = stat,
       last_external_token = None, lookahead_when_paused = 0 \<rparr>"

text \<open>
  Heads for the scan of \<open>parser__condense_stack\<close>: an active head in state 1; one in state
  2 of the same cost and precedence; one in \<open>ERROR_STATE\<close> of cost 5; a halted one; and an
  active one in state 3 of higher dynamic precedence. No two of the active ones can merge.
\<close>

definition head_plain :: StackHead where
  "head_plain = example_head 1 0 0 StackStatusActive"

definition head_other_state :: StackHead where
  "head_other_state = example_head 2 0 0 StackStatusActive"

definition head_in_error :: StackHead where
  "head_in_error = example_head 0 5 0 StackStatusActive"

definition head_halted :: StackHead where
  "head_halted = example_head 1 0 0 StackStatusHalted"

definition head_preferred :: StackHead where
  "head_preferred = example_head 3 0 3 StackStatusActive"

text \<open>
  Six versions in different states, the first with one leaf on its stack.
\<close>

definition six_versions :: Stack where
  "six_versions =
     ts_stack_push
       [example_head 1 0 0 StackStatusActive, example_head 3 0 0 StackStatusActive,
        example_head 4 0 0 StackStatusActive, example_head 5 0 0 StackStatusActive,
        example_head 6 0 0 StackStatusActive, example_head 7 0 0 StackStatusActive]
       0 (Some (example_leaf 1 0 0)) False 2"

text \<open>A shift action, and a parse table of one state without entries.\<close>

definition example_shift :: ParseAction where
  "example_shift =
     \<lparr> type = ParseActionTypeShift, action_extra = False, fragile = False,
       action_symbol = Symbol (- 1), state_index = 3, consumed_symbol_count = 0,
       precedence_range = (0, 0), associativity = 0, production = None \<rparr>"

definition example_table :: ParseTable where
  "example_table =
     \<lparr> states = [\<lparr> entries = Map.empty, lex_state_id = - 1 \<rparr>],
       error_state = \<lparr> entries = Map.empty, lex_state_id = - 1 \<rparr>,
       symbols = Map.empty \<rparr>"

text \<open>The table that adding \<open>example_shift\<close> under symbol 4 of state 0 yields.\<close>

definition example_table_added :: ParseTable where
  "example_table_added =
     example_table
       \<lparr> symbols := (symbols example_table)
                      (Symbol 4 \<mapsto> \<lparr> metadata_extra = False, structural = True \<rparr>),
         states := [\<lparr> entries = (Map.empty)(Symbol 4 \<mapsto>
                        \<lparr> actions = [example_shift], reusable = True,
                          depends_on_lookahead = False \<rparr>),
                     lex_state_id = - 1 \<rparr>] \<rparr>"

text \<open>
  A language whose only token is the byte \<open>a\<close> (symbol 1) and which has no external
  scanner; a lexer at the start of an input; and a lexing function that takes the whole
  of an input of \<open>2 ^ 32 - 1\<close> bytes as one token.
\<close>

definition example_lex_fn :: "Lexer \<Rightarrow> 16 word \<Rightarrow> bool \<times> Lexer" where
  "example_lex_fn lx ls =
     (if lookahead (data lx) = 97
      then (let lx' = ts_lexer_advance lx False
            in (True, lx'\<lparr> token_end_position := current_position lx',
                          data := (data lx')\<lparr> result_symbol := 1 \<rparr> \<rparr>))
      else (False, lx))"

definition example_language :: TSLanguage where
  "example_language =
     \<lparr> symbol_visible = (\<lambda>_. True),
       lex_modes = (\<lambda>_. \<lparr> lex_state = 0, external_lex_state = 0 \<rparr>),
       lex_fn = example_lex_fn,
       keyword_lex_fn = (\<lambda>lx _. (False, lx)),
       keyword_capture_token = 0,
       external_scan = (\<lambda>pl lx _. (False, pl, lx)),
       external_serialize = (\<lambda>pl. pl),
       external_deserialize = (\<lambda>_ bs. bs),
       external_symbol_map = (\<lambda>s. s),
       enabled_external_tokens = (\<lambda>_. None),
       table_entry = (\<lambda>_ _. \<lparr> entry_actions = [], is_reusable = True,
                              entry_depends_on_lookahead = False \<rparr>),
       next_state = (\<lambda>_ _. 0) \<rparr>"

definition example_lexer :: "8 word list \<Rightarrow> Lexer" where
  "example_lexer inp =
     \<lparr> data = \<lparr> lookahead = 0, result_symbol = 0 \<rparr>,
       current_position = length_zero, token_start_position = length_zero,
       token_end_position = LENGTH_UNDEFINED, input = inp \<rparr>"

definition whole_input_lex_fn :: "Lexer \<Rightarrow> 16 word \<Rightarrow> bool \<times> Lexer" where
  "whole_input_lex_fn lx ls =
     (True, lx\<lparr> current_position := \<lparr> bytes = 4294967295, extent = \<lparr> row = 0, column = 4294967295 \<rparr> \<rparr>,
                token_end_position := \<lparr> bytes = 4294967295, extent = \<lparr> row = 0, column = 4294967295 \<rparr> \<rparr>,
                data := \<lparr> lookahead = 0, result_symbol = 1 \<rparr> \<rparr>)"








section \<open>The tree comparison is a total preorder\<close>

lemma position_less_asym: "position_less a b \<Longrightarrow> \<not> position_less b a"
  by (auto simp: position_less_def)

lemma position_less_trans: "position_less a b \<Longrightarrow> position_less b c \<Longrightarrow> position_less a c"
  by (auto simp: position_less_def)

lemma position_less_eqv1: "position_less a b \<Longrightarrow> \<not> position_less c b \<Longrightarrow> position_less a c"
  by (auto simp: position_less_def)

lemma position_less_eqv2: "\<not> position_less b a \<Longrightarrow> position_less b c \<Longrightarrow> position_less a c"
  by (auto simp: position_less_def)

lemma ts_tree_compare_flip:
  "ts_tree_compare l r = - ts_tree_compare r l"
  "ts_tree_compare_children ls rs = - ts_tree_compare_children rs ls"
  by (induction l r and ls rs rule: ts_tree_compare_ts_tree_compare_children.induct)
     (auto simp: position_less_asym)

text \<open>
  \<open>le_chain a b c\<close>: if \<open>a\<close> is not after \<open>b\<close> and \<open>b\<close> is not after \<open>c\<close>, then \<open>a\<close> is not
  after \<open>c\<close>. It is proved for all trees by induction on the sum of the three sizes, which
  gives the fact for the children in every order.
\<close>

lemma children_le_chain:
  assumes elems: "\<And>a b c. a \<in> set as \<Longrightarrow> b \<in> set bs \<Longrightarrow> c \<in> set cs \<Longrightarrow>
      \<not> (ts_tree_compare a b \<le> 0 \<and> ts_tree_compare b c \<le> 0 \<and> 0 < ts_tree_compare a c) \<and>
      \<not> (ts_tree_compare b c \<le> 0 \<and> ts_tree_compare c a \<le> 0 \<and> 0 < ts_tree_compare b a) \<and>
      \<not> (ts_tree_compare c a \<le> 0 \<and> ts_tree_compare a b \<le> 0 \<and> 0 < ts_tree_compare c b)"
    and ab: "ts_tree_compare_children as bs \<le> 0"
    and bc: "ts_tree_compare_children bs cs \<le> 0"
  shows "ts_tree_compare_children as cs \<le> 0"
  using assms
proof (induction as arbitrary: bs cs)
  case Nil
  then show ?case by (cases cs) auto
next
  case (Cons a as)
  show ?case
  proof (cases bs)
    case Nil
    with Cons.prems show ?thesis by simp
  next
    case bs: (Cons b bs')
    show ?thesis
    proof (cases cs)
      case Nil
      with Cons.prems bs show ?thesis by simp
    next
      case cs: (Cons c cs')
      have all:
        "\<not> (ts_tree_compare a b \<le> 0 \<and> ts_tree_compare b c \<le> 0 \<and> 0 < ts_tree_compare a c)"
        "\<not> (ts_tree_compare b c \<le> 0 \<and> ts_tree_compare c a \<le> 0 \<and> 0 < ts_tree_compare b a)"
        "\<not> (ts_tree_compare c a \<le> 0 \<and> ts_tree_compare a b \<le> 0 \<and> 0 < ts_tree_compare c b)"
        using Cons.prems(1)[of a b c] bs cs by simp_all
      have ab: "ts_tree_compare a b \<le> 0"
        using Cons.prems(2) bs by (auto split: if_splits)
      have bc: "ts_tree_compare b c \<le> 0"
        using Cons.prems(3) bs cs by (auto split: if_splits)
      have ac: "ts_tree_compare a c \<le> 0"
        using all(1) ab bc by auto
      show ?thesis
      proof (cases "ts_tree_compare a c = 0")
        case False
        then show ?thesis using ac cs by simp
      next
        case True
        have ca: "ts_tree_compare c a \<le> 0"
          using True ts_tree_compare_flip(1)[of c a] by simp
        have ba: "ts_tree_compare b a \<le> 0" using all(2) bc ca by auto
        have cb: "ts_tree_compare c b \<le> 0" using all(3) ab ca by auto
        have ab0: "ts_tree_compare a b = 0"
          using ab ba ts_tree_compare_flip(1)[of a b] by simp
        have bc0: "ts_tree_compare b c = 0"
          using bc cb ts_tree_compare_flip(1)[of b c] by simp
        have t1: "ts_tree_compare_children as bs' \<le> 0" using Cons.prems(2) bs ab0 by simp
        have t2: "ts_tree_compare_children bs' cs' \<le> 0"
          using Cons.prems(3) bs cs bc0 by simp
        have "ts_tree_compare_children as cs' \<le> 0"
          using Cons.IH[OF _ t1 t2] Cons.prems(1) bs cs by simp
        then show ?thesis using True cs by simp
      qed
    qed
  qed
qed

lemma size_child: "a \<in> set as \<Longrightarrow> size a < size (Tree f as)"
  by (induction as) auto

lemma tree_le_chain_step:
  assumes "ts_tree_compare (Tree af as) (Tree bf bs) \<le> 0"
    and "ts_tree_compare (Tree bf bs) (Tree cf cs) \<le> 0"
    and "ts_tree_compare_children as bs \<le> 0 \<Longrightarrow> ts_tree_compare_children bs cs \<le> 0 \<Longrightarrow>
         ts_tree_compare_children as cs \<le> 0"
  shows "ts_tree_compare (Tree af as) (Tree cf cs) \<le> 0"
  using assms
  by (auto split: if_splits dest: position_less_trans position_less_eqv1 position_less_eqv2)

lemma ts_tree_compare_le_chain:
  "\<not> (ts_tree_compare a b \<le> 0 \<and> ts_tree_compare b c \<le> 0 \<and> 0 < ts_tree_compare a c)"
proof (induction "size a + size b + size c" arbitrary: a b c rule: less_induct)
  case less
  obtain af as where a: "a = Tree af as" by (cases a)
  obtain bf bs where b: "b = Tree bf bs" by (cases b)
  obtain cf cs where c: "c = Tree cf cs" by (cases c)
  have IH: "\<And>x y z. x \<in> set as \<Longrightarrow> y \<in> set bs \<Longrightarrow> z \<in> set cs \<Longrightarrow>
      \<not> (ts_tree_compare x y \<le> 0 \<and> ts_tree_compare y z \<le> 0 \<and> 0 < ts_tree_compare x z) \<and>
      \<not> (ts_tree_compare y z \<le> 0 \<and> ts_tree_compare z x \<le> 0 \<and> 0 < ts_tree_compare y x) \<and>
      \<not> (ts_tree_compare z x \<le> 0 \<and> ts_tree_compare x y \<le> 0 \<and> 0 < ts_tree_compare z y)"
  proof -
    fix x y z assume m: "x \<in> set as" "y \<in> set bs" "z \<in> set cs"
    have s: "size x + size y + size z < size a + size b + size c"
      using size_child[OF m(1), of af] size_child[OF m(2), of bf] size_child[OF m(3), of cf]
        a b c by simp
    have s2: "size y + size z + size x < size a + size b + size c"
      and s3: "size z + size x + size y < size a + size b + size c"
      using s by simp_all
    show "\<not> (ts_tree_compare x y \<le> 0 \<and> ts_tree_compare y z \<le> 0 \<and> 0 < ts_tree_compare x z) \<and>
      \<not> (ts_tree_compare y z \<le> 0 \<and> ts_tree_compare z x \<le> 0 \<and> 0 < ts_tree_compare y x) \<and>
      \<not> (ts_tree_compare z x \<le> 0 \<and> ts_tree_compare x y \<le> 0 \<and> 0 < ts_tree_compare z y)"
      using less[OF s] less[OF s2] less[OF s3] by blast
  qed
  show ?case
  proof
    assume h: "ts_tree_compare a b \<le> 0 \<and> ts_tree_compare b c \<le> 0 \<and> 0 < ts_tree_compare a c"
    have "ts_tree_compare (Tree af as) (Tree cf cs) \<le> 0"
      by (rule tree_le_chain_step[of af as bf bs cf cs])
         (use h a b c children_le_chain[of as bs cs, OF IH] in auto)
    with h a c show False by simp
  qed
qed

lemma sless_total: "\<not> (a::int32) <s b \<Longrightarrow> \<not> b <s a \<Longrightarrow> a = b"
  using signed.less_linear by blast

section \<open>The parse table: helper facts\<close>

lemma find_action_Some:
  "find_action xs a = Some k \<Longrightarrow> k < length xs \<and> ParseAction_eq (xs ! k) a"
  by (induction xs arbitrary: k) (auto split: if_splits)

lemma ParseAction_eq_refl: "ParseAction_eq a a"
  by (simp add: ParseAction_eq_def)

lemma find_action_append_new:
  "find_action xs a = None \<Longrightarrow> find_action (xs @ [a]) a = Some (length xs)"
  by (induction xs) (auto simp: ParseAction_eq_refl split: if_splits)

lemma symbols_at_eq: "symbols t s = Some m \<Longrightarrow> symbols_at t s = m"
  by (simp add: symbols_at_def)

lemma entries_at_eq: "entries st s = Some e \<Longrightarrow> entries_at st s = e"
  by (simp add: entries_at_def)

section \<open>Tree selection\<close>

text \<open>
  Claim C1, as amended. \<open>parser__select_tree left right\<close> tells whether the right tree
  replaces the left one. For two trees the rules apply in order: the tree with the
  strictly smaller error cost wins; otherwise the tree with the strictly higher dynamic
  precedence wins; otherwise, when the (equal) error cost is above zero, the right tree is
  taken; otherwise the tree comparison decides, and the right tree is taken exactly when
  \<open>ts_tree_compare left right = 1\<close>, that is when it comes earlier.
\<close>

theorem select_tree_rules:
  "(error_cost (scalars r) < error_cost (scalars l) \<longrightarrow> parser__select_tree (Some l) (Some r))
 \<and> (error_cost (scalars l) < error_cost (scalars r) \<longrightarrow> \<not> parser__select_tree (Some l) (Some r))
 \<and> (error_cost (scalars l) = error_cost (scalars r) \<and>
      dynamic_precedence (scalars l) <s dynamic_precedence (scalars r) \<longrightarrow>
        parser__select_tree (Some l) (Some r))
 \<and> (error_cost (scalars l) = error_cost (scalars r) \<and>
      dynamic_precedence (scalars r) <s dynamic_precedence (scalars l) \<longrightarrow>
        \<not> parser__select_tree (Some l) (Some r))
 \<and> (error_cost (scalars l) = error_cost (scalars r) \<and>
      dynamic_precedence (scalars l) = dynamic_precedence (scalars r) \<and>
      0 < error_cost (scalars l) \<longrightarrow> parser__select_tree (Some l) (Some r))
 \<and> (error_cost (scalars l) = error_cost (scalars r) \<and>
      dynamic_precedence (scalars l) = dynamic_precedence (scalars r) \<and>
      error_cost (scalars l) = 0 \<longrightarrow>
        parser__select_tree (Some l) (Some r) = (ts_tree_compare l r = 1))"
  by (auto simp: parser__select_tree_def word_sless_alt)

theorem select_tree_rules_witness:
  "parser__select_tree (Some (example_leaf 1 2 0)) (Some (example_leaf 1 1 0))
 \<and> \<not> parser__select_tree (Some (example_leaf 1 1 0)) (Some (example_leaf 1 2 0))
 \<and> parser__select_tree (Some (example_leaf 1 0 0)) (Some (example_leaf 1 0 5))
 \<and> \<not> parser__select_tree (Some (example_leaf 1 0 5)) (Some (example_leaf 1 0 0))
 \<and> parser__select_tree (Some (example_leaf 1 7 0)) (Some (example_leaf 2 7 0))
 \<and> parser__select_tree (Some (example_leaf 2 0 0)) (Some (example_leaf 1 0 0))
 \<and> ts_tree_compare (example_leaf 2 0 0) (example_leaf 1 0 0) = 1"
  using select_tree_rules [where l = "example_leaf 1 2 0" and r = "example_leaf 1 1 0"]
    select_tree_rules [where l = "example_leaf 1 1 0" and r = "example_leaf 1 2 0"]
    select_tree_rules [where l = "example_leaf 1 0 0" and r = "example_leaf 1 0 5"]
    select_tree_rules [where l = "example_leaf 1 0 5" and r = "example_leaf 1 0 0"]
    select_tree_rules [where l = "example_leaf 1 7 0" and r = "example_leaf 2 7 0"]
    select_tree_rules [where l = "example_leaf 2 0 0" and r = "example_leaf 1 0 0"]
  by (simp add: example_leaf_def ts_tree_make_leaf_def position_less_def length_zero_def
        word_sless_alt)

text \<open>
  Claim C1 as stated fails: with both error costs above zero (and equal, and equal dynamic
  precedence) the function answers \<open>True\<close>, so the right tree is kept, not the left one.
\<close>

theorem select_tree_equal_errors_keeps_right:
  "0 < error_cost (scalars (example_leaf 1 7 0))
 \<and> 0 < error_cost (scalars (example_leaf 2 7 0))
 \<and> parser__select_tree (Some (example_leaf 1 7 0)) (Some (example_leaf 2 7 0)) = True"
  by (simp add: parser__select_tree_def example_leaf_def ts_tree_make_leaf_def)

text \<open>
  Claim C8, as amended. Unless two trees have the same error cost above zero and the same
  dynamic precedence, \<open>parser__select_tree a b\<close> and \<open>parser__select_tree b a\<close> never both
  choose their right argument; and unless three trees all have one error cost above zero
  and one dynamic precedence, they form no cycle in which each replaces the next (\<open>a\<close>
  replaces \<open>b\<close>, \<open>b\<close> replaces \<open>c\<close>, \<open>c\<close> replaces \<open>a\<close>). For two trees of the same error
  cost above zero and the same dynamic precedence the function chooses its right argument
  in both orders.
\<close>

theorem select_tree_antisymmetric_unless_equal_errors:
  "(\<not> (error_cost (scalars a) = error_cost (scalars b) \<and>
        dynamic_precedence (scalars a) = dynamic_precedence (scalars b) \<and>
        0 < error_cost (scalars a)) \<longrightarrow>
      \<not> (parser__select_tree (Some a) (Some b) \<and> parser__select_tree (Some b) (Some a)))
 \<and> (\<not> (error_cost (scalars a) = error_cost (scalars b) \<and>
        error_cost (scalars b) = error_cost (scalars c) \<and>
        dynamic_precedence (scalars a) = dynamic_precedence (scalars b) \<and>
        dynamic_precedence (scalars b) = dynamic_precedence (scalars c) \<and>
        0 < error_cost (scalars a)) \<longrightarrow>
      \<not> (parser__select_tree (Some b) (Some a) \<and> parser__select_tree (Some c) (Some b) \<and>
         parser__select_tree (Some a) (Some c)))
 \<and> (error_cost (scalars a) = error_cost (scalars b) \<and>
      dynamic_precedence (scalars a) = dynamic_precedence (scalars b) \<and>
      0 < error_cost (scalars a) \<longrightarrow>
      parser__select_tree (Some a) (Some b) \<and> parser__select_tree (Some b) (Some a))"
proof (intro conjI impI notI)
  assume h: "error_cost (scalars a) = error_cost (scalars b) \<and>
      dynamic_precedence (scalars a) = dynamic_precedence (scalars b) \<and>
      0 < error_cost (scalars a)"
  show "parser__select_tree (Some a) (Some b)"
    using h by (auto simp: parser__select_tree_def word_sless_alt)
  show "parser__select_tree (Some b) (Some a)"
    using h by (auto simp: parser__select_tree_def word_sless_alt)
next
  assume n: "\<not> (error_cost (scalars a) = error_cost (scalars b) \<and>
        dynamic_precedence (scalars a) = dynamic_precedence (scalars b) \<and>
        0 < error_cost (scalars a))"
    and s: "parser__select_tree (Some a) (Some b) \<and> parser__select_tree (Some b) (Some a)"
  have ec: "error_cost (scalars a) = error_cost (scalars b)"
    using s by (auto simp: parser__select_tree_def split: if_splits)
  have "\<not> dynamic_precedence (scalars a) <s dynamic_precedence (scalars b)"
    "\<not> dynamic_precedence (scalars b) <s dynamic_precedence (scalars a)"
    using s ec by (auto simp: parser__select_tree_def split: if_splits)
  then have dp: "dynamic_precedence (scalars a) = dynamic_precedence (scalars b)"
    by (rule sless_total)
  have z: "error_cost (scalars a) = 0" using n ec dp word_neq_0_conv by blast
  have "ts_tree_compare a b = 1 \<and> ts_tree_compare b a = 1"
    using s ec dp z by (auto simp: parser__select_tree_def split: if_splits)
  then show False using ts_tree_compare_flip(1)[of a b] by linarith
next
  assume n: "\<not> (error_cost (scalars a) = error_cost (scalars b) \<and>
        error_cost (scalars b) = error_cost (scalars c) \<and>
        dynamic_precedence (scalars a) = dynamic_precedence (scalars b) \<and>
        dynamic_precedence (scalars b) = dynamic_precedence (scalars c) \<and>
        0 < error_cost (scalars a))"
    and s: "parser__select_tree (Some b) (Some a) \<and> parser__select_tree (Some c) (Some b) \<and>
         parser__select_tree (Some a) (Some c)"
  have le: "error_cost (scalars a) \<le> error_cost (scalars b)"
      "error_cost (scalars b) \<le> error_cost (scalars c)"
      "error_cost (scalars c) \<le> error_cost (scalars a)"
    using s by (auto simp: parser__select_tree_def split: if_splits)
  have ec: "error_cost (scalars a) = error_cost (scalars b)"
      "error_cost (scalars b) = error_cost (scalars c)"
    using le by auto
  have dle: "sint (dynamic_precedence (scalars b)) \<le> sint (dynamic_precedence (scalars a))"
      "sint (dynamic_precedence (scalars c)) \<le> sint (dynamic_precedence (scalars b))"
      "sint (dynamic_precedence (scalars a)) \<le> sint (dynamic_precedence (scalars c))"
    using s ec by (auto simp: parser__select_tree_def word_sless_alt split: if_splits)
  have dp: "\<not> dynamic_precedence (scalars b) <s dynamic_precedence (scalars a)"
     "\<not> dynamic_precedence (scalars c) <s dynamic_precedence (scalars b)"
     "\<not> dynamic_precedence (scalars a) <s dynamic_precedence (scalars c)"
     "\<not> dynamic_precedence (scalars a) <s dynamic_precedence (scalars b)"
     "\<not> dynamic_precedence (scalars b) <s dynamic_precedence (scalars c)"
    using dle by (auto simp: word_sless_alt)
  have dpe: "dynamic_precedence (scalars a) = dynamic_precedence (scalars b)"
      "dynamic_precedence (scalars b) = dynamic_precedence (scalars c)"
    using dp sless_total by blast+
  have z: "error_cost (scalars a) = 0" using n ec dpe word_neq_0_conv by blast
  have cmp: "ts_tree_compare b a = 1" "ts_tree_compare c b = 1" "ts_tree_compare a c = 1"
    using s z ec dp by (auto simp: parser__select_tree_def split: if_splits)
  have "ts_tree_compare a b \<le> 0" "ts_tree_compare b c \<le> 0"
    using cmp ts_tree_compare_flip(1)[of a b] ts_tree_compare_flip(1)[of b c] by simp_all
  then show False using ts_tree_compare_le_chain[of a b c] cmp(3) by simp
qed

theorem select_tree_antisymmetric_unless_equal_errors_witness:
  "\<not> (parser__select_tree (Some (example_leaf 1 0 0)) (Some (example_leaf 2 0 0)) \<and>
      parser__select_tree (Some (example_leaf 2 0 0)) (Some (example_leaf 1 0 0)))
 \<and> \<not> (parser__select_tree (Some (example_leaf 2 0 0)) (Some (example_leaf 1 0 0)) \<and>
      parser__select_tree (Some (example_leaf 3 0 0)) (Some (example_leaf 2 0 0)) \<and>
      parser__select_tree (Some (example_leaf 1 0 0)) (Some (example_leaf 3 0 0)))
 \<and> \<not> (parser__select_tree (Some (example_leaf 1 7 0)) (Some (example_leaf 1 3 0)) \<and>
      parser__select_tree (Some (example_leaf 1 9 0)) (Some (example_leaf 1 7 0)) \<and>
      parser__select_tree (Some (example_leaf 1 3 0)) (Some (example_leaf 1 9 0)))
 \<and> \<not> (parser__select_tree (Some (example_leaf 1 7 1)) (Some (example_leaf 1 7 0)) \<and>
      parser__select_tree (Some (example_leaf 1 7 2)) (Some (example_leaf 1 7 1)) \<and>
      parser__select_tree (Some (example_leaf 1 7 0)) (Some (example_leaf 1 7 2)))"
  using select_tree_antisymmetric_unless_equal_errors
          [of "example_leaf 1 0 0" "example_leaf 2 0 0" "example_leaf 3 0 0"]
        select_tree_antisymmetric_unless_equal_errors
          [of "example_leaf 1 3 0" "example_leaf 1 7 0" "example_leaf 1 9 0"]
        select_tree_antisymmetric_unless_equal_errors
          [of "example_leaf 1 7 0" "example_leaf 1 7 1" "example_leaf 1 7 2"]
  by (simp add: example_leaf_def ts_tree_make_leaf_def word_sless_alt)

text \<open>
  Claim C8 as stated fails: two distinct trees of the same error cost above zero and the
  same dynamic precedence each replace the other.
\<close>

theorem select_tree_not_antisymmetric:
  "example_leaf 1 7 0 \<noteq> example_leaf 2 7 0
 \<and> parser__select_tree (Some (example_leaf 1 7 0)) (Some (example_leaf 2 7 0))
 \<and> parser__select_tree (Some (example_leaf 2 7 0)) (Some (example_leaf 1 7 0))"
  by (simp add: parser__select_tree_def example_leaf_def ts_tree_make_leaf_def)

section \<open>Comparison of versions\<close>

text \<open>
  Claim C2, as amended. When exactly one status is in error, the other side wins: it is
  taken when its cost is strictly lower and preferred otherwise. When both or neither are
  in error and \<open>cost a < cost b\<close>, the left side is taken exactly when
  \<open>(cost b - cost a) * (1 + node_count a)\<close>, computed in 32-bit unsigned arithmetic (modulo
  \<open>2 ^ 32\<close>), exceeds \<open>MAX_COST_DIFFERENCE = 16 * ERROR_COST_PER_SKIPPED_TREE\<close>, and preferred
  otherwise; symmetrically for \<open>cost b < cost a\<close>. On equal cost the side of strictly
  higher dynamic precedence is preferred, and the result is \<open>ErrorComparisonNone\<close> when
  the precedences are equal too.
\<close>

theorem compare_versions_cases:
  "(\<not> is_in_error a \<and> is_in_error b \<longrightarrow>
      parser__compare_versions c a b =
        (if cost a < cost b then ErrorComparisonTakeLeft else ErrorComparisonPreferLeft))
 \<and> (is_in_error a \<and> \<not> is_in_error b \<longrightarrow>
      parser__compare_versions c a b =
        (if cost b < cost a then ErrorComparisonTakeRight else ErrorComparisonPreferRight))
 \<and> (is_in_error a = is_in_error b \<and> cost a < cost b \<longrightarrow>
      parser__compare_versions c a b =
        (if MAX_COST_DIFFERENCE c < (cost b - cost a) * (1 + node_count a)
         then ErrorComparisonTakeLeft else ErrorComparisonPreferLeft))
 \<and> (is_in_error a = is_in_error b \<and> cost b < cost a \<longrightarrow>
      parser__compare_versions c a b =
        (if MAX_COST_DIFFERENCE c < (cost a - cost b) * (1 + node_count b)
         then ErrorComparisonTakeRight else ErrorComparisonPreferRight))
 \<and> (is_in_error a = is_in_error b \<and> cost a = cost b \<longrightarrow>
      parser__compare_versions c a b =
        (if status_dynamic_precedence b <s status_dynamic_precedence a
           then ErrorComparisonPreferLeft
         else if status_dynamic_precedence a <s status_dynamic_precedence b
           then ErrorComparisonPreferRight
         else ErrorComparisonNone))"
  by (auto simp: parser__compare_versions_def)

theorem compare_versions_cases_witness:
  "parser__compare_versions 100
     \<lparr> cost = 5, node_count = 0, status_dynamic_precedence = 0, is_in_error = False \<rparr>
     \<lparr> cost = 9, node_count = 0, status_dynamic_precedence = 0, is_in_error = True \<rparr>
     = ErrorComparisonTakeLeft
 \<and> parser__compare_versions 100
     \<lparr> cost = 9, node_count = 0, status_dynamic_precedence = 0, is_in_error = True \<rparr>
     \<lparr> cost = 9, node_count = 0, status_dynamic_precedence = 0, is_in_error = False \<rparr>
     = ErrorComparisonPreferRight
 \<and> parser__compare_versions 100
     \<lparr> cost = 0, node_count = 3, status_dynamic_precedence = 0, is_in_error = False \<rparr>
     \<lparr> cost = 500, node_count = 0, status_dynamic_precedence = 0, is_in_error = False \<rparr>
     = ErrorComparisonTakeLeft
 \<and> parser__compare_versions 100
     \<lparr> cost = 500, node_count = 0, status_dynamic_precedence = 0, is_in_error = False \<rparr>
     \<lparr> cost = 0, node_count = 2, status_dynamic_precedence = 0, is_in_error = False \<rparr>
     = ErrorComparisonPreferRight
 \<and> parser__compare_versions 100
     \<lparr> cost = 7, node_count = 0, status_dynamic_precedence = - 1, is_in_error = False \<rparr>
     \<lparr> cost = 7, node_count = 0, status_dynamic_precedence = 2, is_in_error = False \<rparr>
     = ErrorComparisonPreferRight"
  using
    compare_versions_cases [of
      "\<lparr> cost = 5, node_count = 0, status_dynamic_precedence = 0, is_in_error = False \<rparr>"
      "\<lparr> cost = 9, node_count = 0, status_dynamic_precedence = 0, is_in_error = True \<rparr>" 100]
    compare_versions_cases [of
      "\<lparr> cost = 9, node_count = 0, status_dynamic_precedence = 0, is_in_error = True \<rparr>"
      "\<lparr> cost = 9, node_count = 0, status_dynamic_precedence = 0, is_in_error = False \<rparr>" 100]
    compare_versions_cases [of
      "\<lparr> cost = 0, node_count = 3, status_dynamic_precedence = 0, is_in_error = False \<rparr>"
      "\<lparr> cost = 500, node_count = 0, status_dynamic_precedence = 0, is_in_error = False \<rparr>" 100]
    compare_versions_cases [of
      "\<lparr> cost = 500, node_count = 0, status_dynamic_precedence = 0, is_in_error = False \<rparr>"
      "\<lparr> cost = 0, node_count = 2, status_dynamic_precedence = 0, is_in_error = False \<rparr>" 100]
    compare_versions_cases [of
      "\<lparr> cost = 7, node_count = 0, status_dynamic_precedence = - 1, is_in_error = False \<rparr>"
      "\<lparr> cost = 7, node_count = 0, status_dynamic_precedence = 2, is_in_error = False \<rparr>" 100]
  by (simp add: MAX_COST_DIFFERENCE_def word_sless_alt)

text \<open>
  Claim C2 as stated fails where the product wraps: with costs \<open>0\<close> and \<open>65536\<close> and a node
  count of \<open>65535\<close> the product of the natural numbers is \<open>2 ^ 32\<close>, above the threshold
  \<open>1600\<close>, but the 32-bit product is \<open>0\<close> and the left side is only preferred.
\<close>

theorem compare_versions_product_wraps:
  "parser__compare_versions 100
     \<lparr> cost = 0, node_count = 65535, status_dynamic_precedence = 0, is_in_error = False \<rparr>
     \<lparr> cost = 65536, node_count = 0, status_dynamic_precedence = 0, is_in_error = False \<rparr>
   = ErrorComparisonPreferLeft
 \<and> unat (MAX_COST_DIFFERENCE 100) <
     (unat (65536 :: uint32) - unat (0 :: uint32)) * (1 + unat (65535 :: uint32))"
  by (simp add: parser__compare_versions_def MAX_COST_DIFFERENCE_def)

text \<open>
  Claim C9. The status computed for a version has the stack's error cost plus one
  \<open>ERROR_COST_PER_SKIPPED_TREE\<close> when the version is paused and the stack's error cost
  unchanged when it is not; it is in error exactly when the version is paused or its head
  state is \<open>ERROR_STATE\<close>.
\<close>

theorem version_status_paused_penalty:
  "cost (parser__version_status c s v) =
     (if ts_stack_is_paused s v then ts_stack_error_cost s v + c else ts_stack_error_cost s v)
   \<and> is_in_error (parser__version_status c s v) =
     (ts_stack_is_paused s v \<or> ts_stack_state s v = ERROR_STATE)"
  by (simp add: parser__version_status_def Let_def)

section \<open>Adding an action to the parse table\<close>

text \<open>
  Claim C10. When \<open>add_action\<close> succeeds with position \<open>k\<close> and table \<open>t'\<close>, adding the same
  action again to \<open>t'\<close> returns the same position and leaves \<open>t'\<close> as it is; and when an
  action equal to the new one was already in the entry's list, at position \<open>j\<close>, the
  first call returns that position, the list is unchanged and the action at that
  position is equal to the new one.
\<close>

theorem add_action_idempotent:
  "add_action t state_id smb a = Some (k, t') \<longrightarrow>
     add_action t' state_id smb a = Some (k, t') \<and>
     (\<forall>j. find_action (actions (entries_at (states t ! state_id) smb)) a = Some j \<longrightarrow>
        k = j \<and>
        actions (entries_at (states t' ! state_id) smb) =
          actions (entries_at (states t ! state_id) smb) \<and>
        ParseAction_eq (actions (entries_at (states t ! state_id) smb) ! k) a)"
proof
  assume h: "add_action t state_id smb a = Some (k, t')"
  define e where "e = entries_at (states t ! state_id) smb"
  define m where "m = (if action_extra a then (symbols_at t smb)\<lparr>metadata_extra := True\<rparr>
                       else (symbols_at t smb)\<lparr>structural := True\<rparr>)"
  define e' where "e' = (case find_action (actions e) a of Some j \<Rightarrow> e
                          | None \<Rightarrow> e\<lparr>actions := actions e @ [a]\<rparr>)"
  have lt: "state_id < length (states t)"
    using h by (auto simp: add_action_def Let_def split: if_splits)
  have k: "k = (case find_action (actions e) a of Some j \<Rightarrow> j | None \<Rightarrow> length (actions e))"
    using h lt by (auto simp: add_action_def Let_def e_def split: if_splits option.splits)
  have t': "t' = t\<lparr>symbols := (symbols t)(smb \<mapsto> m),
                    states := (states t)[state_id := (states t ! state_id)\<lparr>entries :=
                       (entries (states t ! state_id))(smb \<mapsto> e')\<rparr>]\<rparr>"
    using h lt by (auto simp: add_action_def Let_def e_def e'_def m_def split: if_splits option.splits)
  have sm: "symbols_at t' smb = m" by (rule symbols_at_eq) (simp add: t')
  have en: "entries_at (states t' ! state_id) smb = e'"
    by (rule entries_at_eq) (simp add: t' lt)
  have fe': "find_action (actions e') a = Some k"
    using k by (auto simp: e'_def find_action_append_new split: option.splits)
  have m2: "action_extra a \<Longrightarrow> m\<lparr>metadata_extra := True\<rparr> = m"
    "\<not> action_extra a \<Longrightarrow> m\<lparr>structural := True\<rparr> = m"
    by (simp_all add: m_def)
  have again: "add_action t' state_id smb a = Some (k, t')"
    unfolding add_action_def Let_def
    using lt by (simp add: sm en fe') (simp add: t' lt m2)
  have second: "\<forall>j. find_action (actions e) a = Some j \<longrightarrow>
        k = j \<and> actions (entries_at (states t' ! state_id) smb) = actions e \<and>
        ParseAction_eq (actions e ! k) a"
    using k en by (auto simp: e'_def dest: find_action_Some)
  show "add_action t' state_id smb a = Some (k, t') \<and>
     (\<forall>j. find_action (actions (entries_at (states t ! state_id) smb)) a = Some j \<longrightarrow>
        k = j \<and>
        actions (entries_at (states t' ! state_id) smb) =
          actions (entries_at (states t ! state_id) smb) \<and>
        ParseAction_eq (actions (entries_at (states t ! state_id) smb) ! k) a)"
    using again second unfolding e_def by blast
qed

theorem add_action_idempotent_witness:
  "add_action example_table 0 (Symbol 4) example_shift = Some (0, example_table_added)
 \<and> add_action example_table_added 0 (Symbol 4) example_shift = Some (0, example_table_added)"
proof -
  have first: "add_action example_table 0 (Symbol 4) example_shift = Some (0, example_table_added)"
    by (simp add: add_action_def example_table_def example_table_added_def example_shift_def
          Let_def symbols_at_def entries_at_def ParseTableEntry_default_def)
  show ?thesis
    using first
      add_action_idempotent [of example_table 0 "Symbol 4" example_shift 0 example_table_added]
    by simp
qed

section \<open>Condensing the stack: the scan over pairs of versions\<close>

lemma take_remove_subset:
  "set (take k (ts_stack_remove_version s v)) \<subseteq> set (take (Suc k) s)"
proof
  fix x assume "x \<in> set (take k (ts_stack_remove_version s v))"
  then obtain n where n: "n < k" "n < length (ts_stack_remove_version s v)"
    "x = ts_stack_remove_version s v ! n"
    by (auto simp: in_set_conv_nth)
  show "x \<in> set (take (Suc k) s)"
  proof (cases "n < v")
    case True
    then have "x = s ! n" "n < length s" using n
      by (auto simp: ts_stack_remove_version_def nth_append split: if_splits)
    then show ?thesis using n(1) by (auto simp: in_set_conv_nth intro!: exI[of _ n])
  next
    case False
    then have "x = s ! (Suc n)" "Suc n < length s" using n
      by (auto simp: ts_stack_remove_version_def nth_append min_def split: if_splits)
    then show ?thesis using n(1) by (auto simp: in_set_conv_nth intro!: exI[of _ "Suc n"])
  qed
qed

lemma in_take_nth: "x \<in> set (take (Suc i) xs) \<Longrightarrow> \<exists>n\<le>i. n < length xs \<and> x = xs ! n"
  by (auto simp: in_set_conv_nth less_Suc_eq_le)

lemma nth_in_take: "n \<le> i \<Longrightarrow> i < length s \<Longrightarrow> s ! n \<in> set (take (Suc i) s)"
  by (auto simp: in_set_conv_nth intro!: exI[of _ n])

lemma take_swap_subset:
  assumes "i < length s" "j < i"
  shows "set (take (Suc i) (ts_stack_swap_versions s i j)) \<subseteq> set (take (Suc i) s)"
proof
  fix x assume "x \<in> set (take (Suc i) (ts_stack_swap_versions s i j))"
  then obtain n where n: "n \<le> i" "x = ts_stack_swap_versions s i j ! n"
    using in_take_nth[of x i "ts_stack_swap_versions s i j"] by auto
  then have "x = s ! i \<or> x = s ! j \<or> x = s ! n"
    using assms by (auto simp: ts_stack_swap_versions_def nth_list_update)
  then show "x \<in> set (take (Suc i) s)"
    using nth_in_take[of i i s] nth_in_take[of j i s] nth_in_take[of n i s] assms n(1)
    by auto
qed

lemma take_merge_not_halted:
  assumes "i < length s" "j < i" "list_all not_halted (take (Suc i) s)"
    "fst (ts_stack_merge s j i)"
  shows "list_all not_halted (take i (snd (ts_stack_merge s j i)))"
proof -
  let ?h = "(s ! j)\<lparr> node := stack_node_add_links (node (s ! j)) (node (s ! i)) \<rparr>"
  have sj: "not_halted (s ! j)"
    using assms(1,2,3) nth_in_take[of j i s] by (auto simp: list_all_iff)
  have m: "snd (ts_stack_merge s j i) = ts_stack_remove_version (s[j := ?h]) i"
    using assms(4) by (simp add: ts_stack_merge_def split: if_splits)
  have "set (take i (ts_stack_remove_version (s[j := ?h]) i)) \<subseteq> set (take (Suc i) (s[j := ?h]))"
    by (rule take_remove_subset)
  moreover have "list_all not_halted (take (Suc i) (s[j := ?h]))"
  proof -
    have "\<And>x. x \<in> set (take (Suc i) (s[j := ?h])) \<Longrightarrow> not_halted x"
    proof -
      fix x assume "x \<in> set (take (Suc i) (s[j := ?h]))"
      then obtain n where n: "n \<le> i" "x = s[j := ?h] ! n"
        using in_take_nth[of x i "s[j := ?h]"] by auto
      show "not_halted x"
      proof (cases "n = j")
        case True
        then show ?thesis using n assms(1,2) sj by (simp add: not_halted_def)
      next
        case False
        then have "x = s ! n" using n by simp
        then show ?thesis
          using nth_in_take[of n i s] n(1) assms(1,3) by (auto simp: list_all_iff)
      qed
    qed
    then show ?thesis by (auto simp: list_all_iff)
  qed
  ultimately show ?thesis unfolding m by (auto simp: list_all_iff)
qed

lemma inner_not_halted:
  "i < length s \<Longrightarrow> list_all not_halted (take (Suc i) s) \<Longrightarrow>
   parser__condense_stack_inner c status_i s i j m = (s', i', m') \<Longrightarrow>
   list_all not_halted (take (Suc i') s')"
proof (induction c status_i s i j m rule: parser__condense_stack_inner.induct)
  case (1 c status_i s i j made_changes)
  note unf = parser__condense_stack_inner.simps[of c status_i s i j made_changes]
  show ?case
  proof (cases "j < i")
    case False
    with "1.prems" unf show ?thesis by simp
  next
    case True
    have rem_i: "list_all not_halted (take i (ts_stack_remove_version s i))"
      using take_remove_subset[of i s i] "1.prems"(2) by (auto simp: list_all_iff)
    have rem_j: "list_all not_halted (take i (ts_stack_remove_version s j))"
      using take_remove_subset[of i s j] "1.prems"(2) by (auto simp: list_all_iff)
    have sw: "list_all not_halted (take (Suc i) (ts_stack_swap_versions s i j))"
      using take_swap_subset[OF "1.prems"(1) True] "1.prems"(2) by (auto simp: list_all_iff)
    have mg: "fst (ts_stack_merge s j i) \<Longrightarrow>
        list_all not_halted (take i (snd (ts_stack_merge s j i)))"
      using take_merge_not_halted[OF "1.prems"(1) True "1.prems"(2)] by simp
    have suc: "Suc (i - 1) = i" using True by simp
    have lens: "i - 1 < length (ts_stack_remove_version s j)"
      "i < length (ts_stack_swap_versions s i j)"
      using True "1.prems"(1)
      by (simp_all add: ts_stack_remove_version_length ts_stack_swap_versions_def)
    show ?thesis
    proof (cases "parser__compare_versions c (parser__version_status c s j) status_i")
      case ErrorComparisonTakeLeft
      with True "1.prems" unf rem_i suc show ?thesis by auto
    next
      case ErrorComparisonPreferLeft
      show ?thesis
      proof (cases "fst (ts_stack_merge s j i)")
        case m: True
        with True "1.prems" ErrorComparisonPreferLeft unf mg suc show ?thesis by auto
      next
        case m: False
        with True "1.prems" ErrorComparisonPreferLeft unf
          "1.IH"(1)[OF True ErrorComparisonPreferLeft m]
        show ?thesis by simp
      qed
    next
      case ErrorComparisonNone
      show ?thesis
      proof (cases "fst (ts_stack_merge s j i)")
        case m: True
        with True "1.prems" ErrorComparisonNone unf mg suc show ?thesis by auto
      next
        case m: False
        with True "1.prems" ErrorComparisonNone unf
          "1.IH"(2)[OF True ErrorComparisonNone m]
        show ?thesis by simp
      qed
    next
      case ErrorComparisonPreferRight
      show ?thesis
      proof (cases "fst (ts_stack_merge s j i)")
        case m: True
        with True "1.prems" ErrorComparisonPreferRight unf mg suc show ?thesis by auto
      next
        case m: False
        with True "1.prems" ErrorComparisonPreferRight unf lens sw
          "1.IH"(3)[OF True ErrorComparisonPreferRight m]
        show ?thesis by simp
      qed
    next
      case ErrorComparisonTakeRight
      with True "1.prems" unf lens rem_j suc
        "1.IH"(4)[OF True ErrorComparisonTakeRight]
      show ?thesis by auto
    qed
  qed
qed

lemma outer_not_halted:
  "list_all not_halted (take i s) \<Longrightarrow>
   list_all not_halted (fst (parser__condense_stack_outer c s i mn m))"
proof (induction c s i mn m rule: parser__condense_stack_outer.induct)
  case (1 c s i mn m)
  note unf = parser__condense_stack_outer.simps[of c s i mn m]
  show ?case
  proof (cases "i < ts_stack_version_count s")
    case False
    with "1.prems" unf show ?thesis by (simp add: ts_stack_version_count_def)
  next
    case True
    show ?thesis
    proof (cases "ts_stack_is_halted s i")
      case h: True
      have "list_all not_halted (take i (ts_stack_remove_version s i))"
        using "1.prems" True
        by (simp add: ts_stack_remove_version_def ts_stack_version_count_def)
      with "1.IH"(1)[OF True h] unf True h show ?thesis by simp
    next
      case h: False
      define status_i where "status_i = parser__version_status c s i"
      define mn' where "mn' = (if \<not> is_in_error status_i \<and> cost status_i < mn then cost status_i else mn)"
      define r where "r = parser__condense_stack_inner c status_i s i 0 m"
      obtain s' i' m' where e: "parser__condense_stack_inner c status_i s i 0 m = (s', i', m')"
        by (cases "parser__condense_stack_inner c status_i s i 0 m") auto
      have il: "i < length s" using True by (simp add: ts_stack_version_count_def)
      have "not_halted (s ! i)" using h by (simp add: ts_stack_is_halted_def not_halted_def)
      then have pre: "list_all not_halted (take (Suc i) s)"
        using "1.prems" il by (simp add: take_Suc_conv_app_nth)
      have post: "list_all not_halted (take (Suc i') s')"
        by (rule inner_not_halted[OF il pre e])
      have "list_all not_halted (fst (parser__condense_stack_outer c (fst r) (fst (snd r) + 1) mn' (snd (snd r))))"
        by (rule "1.IH"(2)[OF True h status_i_def mn'_def r_def]) (use post e r_def in simp)
      moreover have "parser__condense_stack_outer c s i mn m =
          parser__condense_stack_outer c (fst r) (fst (snd r) + 1) mn' (snd (snd r))"
        unfolding r_def mn'_def status_i_def
        using unf True h by (simp only: if_True if_False Let_def)
      ultimately show ?thesis by (simp only:)
    qed
  qed
qed


lemmas condense_eval =
  parser__condense_stack_inner.simps parser__condense_stack_outer.simps
  parser__compare_versions_def parser__version_status_def ts_stack_error_cost_def
  ts_stack_is_paused_def ts_stack_is_halted_def ts_stack_state_def
  ts_stack_node_count_since_error_def ts_stack_dynamic_precedence_def
  ts_stack_version_count_def ts_stack_remove_version_def ts_stack_swap_versions_def
  ts_stack_merge_def ts_stack_can_merge_def ts_tree_external_token_state_eq_def
  stack_node_add_links_def ERROR_STATE_def example_head_def head_plain_def
  head_other_state_def head_in_error_def head_halted_def head_preferred_def Let_def
  MAX_COST_DIFFERENCE_def word_sless_alt length_zero_def not_halted_def

text \<open>
  Claim C3, as amended. The scan of \<open>parser__condense_stack\<close> removes a halted version
  when it reaches it, before comparing it with any other, and leaves no halted version.
  For a version \<open>i\<close> that is not halted it computes \<open>status_i\<close> once and then, for the versions
  \<open>j < i\<close>, acts on \<open>compare_versions(status_j, status_i)\<close> with that \<open>status_i\<close> (the recursive
  calls pass it on unchanged, also after a swap) and the status of the version at \<open>j\<close>:
  on TakeLeft it removes version \<open>i\<close> and the scan for index \<open>i\<close> restarts; on PreferLeft
  or None it attempts \<open>merge(j, i)\<close> and restarts the scan for \<open>i\<close> if the merge succeeds,
  and goes on to \<open>j + 1\<close> otherwise; on PreferRight it attempts the merge and, if the merge
  fails, swaps versions \<open>i\<close> and \<open>j\<close> and goes on to \<open>j + 1\<close>; on TakeRight it removes
  version \<open>j\<close> and goes on with the same \<open>j\<close> and \<open>i - 1\<close>.
\<close>

theorem condense_stack_pairwise:
  "list_all not_halted (fst (parser__condense_stack_outer c s 0 mn m))
 \<and> (i < ts_stack_version_count s \<and> ts_stack_is_halted s i \<longrightarrow>
      parser__condense_stack_outer c s i mn m =
        parser__condense_stack_outer c (ts_stack_remove_version s i) i mn m)
 \<and> (i < ts_stack_version_count s \<and> \<not> ts_stack_is_halted s i \<longrightarrow>
      parser__condense_stack_outer c s i mn m =
        parser__condense_stack_outer c
          (fst (parser__condense_stack_inner c (parser__version_status c s i) s i 0 m))
          (fst (snd (parser__condense_stack_inner c (parser__version_status c s i) s i 0 m)) + 1)
          (if \<not> is_in_error (parser__version_status c s i) \<and>
              cost (parser__version_status c s i) < mn
           then cost (parser__version_status c s i) else mn)
          (snd (snd (parser__condense_stack_inner c (parser__version_status c s i) s i 0 m))))
 \<and> (j < i \<and> parser__compare_versions c (parser__version_status c s j) status_i
              = ErrorComparisonTakeLeft \<longrightarrow>
      parser__condense_stack_inner c status_i s i j m = (ts_stack_remove_version s i, i - 1, True))
 \<and> (j < i \<and> (parser__compare_versions c (parser__version_status c s j) status_i
               = ErrorComparisonPreferLeft \<or>
              parser__compare_versions c (parser__version_status c s j) status_i
               = ErrorComparisonNone) \<longrightarrow>
      parser__condense_stack_inner c status_i s i j m =
        (if fst (ts_stack_merge s j i) then (snd (ts_stack_merge s j i), i - 1, True)
         else parser__condense_stack_inner c status_i s i (j + 1) m))
 \<and> (j < i \<and> parser__compare_versions c (parser__version_status c s j) status_i
              = ErrorComparisonPreferRight \<longrightarrow>
      parser__condense_stack_inner c status_i s i j m =
        (if fst (ts_stack_merge s j i) then (snd (ts_stack_merge s j i), i - 1, True)
         else parser__condense_stack_inner c status_i (ts_stack_swap_versions s i j) i (j + 1)
                True))
 \<and> (j < i \<and> parser__compare_versions c (parser__version_status c s j) status_i
              = ErrorComparisonTakeRight \<longrightarrow>
      parser__condense_stack_inner c status_i s i j m =
        parser__condense_stack_inner c status_i (ts_stack_remove_version s j) (i - 1) j True)"
proof -
  have a: "list_all not_halted (fst (parser__condense_stack_outer c s 0 mn m))"
    by (rule outer_not_halted) simp
  have b: "i < ts_stack_version_count s \<and> ts_stack_is_halted s i \<longrightarrow>
      parser__condense_stack_outer c s i mn m =
        parser__condense_stack_outer c (ts_stack_remove_version s i) i mn m"
    using parser__condense_stack_outer.simps[of c s i mn m] by simp
  have c: "i < ts_stack_version_count s \<and> \<not> ts_stack_is_halted s i \<longrightarrow>
      parser__condense_stack_outer c s i mn m =
        parser__condense_stack_outer c
          (fst (parser__condense_stack_inner c (parser__version_status c s i) s i 0 m))
          (fst (snd (parser__condense_stack_inner c (parser__version_status c s i) s i 0 m)) + 1)
          (if \<not> is_in_error (parser__version_status c s i) \<and>
              cost (parser__version_status c s i) < mn
           then cost (parser__version_status c s i) else mn)
          (snd (snd (parser__condense_stack_inner c (parser__version_status c s i) s i 0 m)))"
  proof (intro impI)
    assume h: "i < ts_stack_version_count s \<and> \<not> ts_stack_is_halted s i"
    show "parser__condense_stack_outer c s i mn m =
        parser__condense_stack_outer c
          (fst (parser__condense_stack_inner c (parser__version_status c s i) s i 0 m))
          (fst (snd (parser__condense_stack_inner c (parser__version_status c s i) s i 0 m)) + 1)
          (if \<not> is_in_error (parser__version_status c s i) \<and>
              cost (parser__version_status c s i) < mn
           then cost (parser__version_status c s i) else mn)
          (snd (snd (parser__condense_stack_inner c (parser__version_status c s i) s i 0 m)))"
      using h by (subst parser__condense_stack_outer.simps) (simp add: Let_def)
  qed
  note unf = parser__condense_stack_inner.simps[of c status_i s i j m]
  have d: "j < i \<and> parser__compare_versions c (parser__version_status c s j) status_i
              = ErrorComparisonTakeLeft \<longrightarrow>
      parser__condense_stack_inner c status_i s i j m = (ts_stack_remove_version s i, i - 1, True)"
    using unf by simp
  have e: "j < i \<and> (parser__compare_versions c (parser__version_status c s j) status_i
               = ErrorComparisonPreferLeft \<or>
              parser__compare_versions c (parser__version_status c s j) status_i
               = ErrorComparisonNone) \<longrightarrow>
      parser__condense_stack_inner c status_i s i j m =
        (if fst (ts_stack_merge s j i) then (snd (ts_stack_merge s j i), i - 1, True)
         else parser__condense_stack_inner c status_i s i (j + 1) m)"
    using unf by auto
  have f: "j < i \<and> parser__compare_versions c (parser__version_status c s j) status_i
              = ErrorComparisonPreferRight \<longrightarrow>
      parser__condense_stack_inner c status_i s i j m =
        (if fst (ts_stack_merge s j i) then (snd (ts_stack_merge s j i), i - 1, True)
         else parser__condense_stack_inner c status_i (ts_stack_swap_versions s i j) i (j + 1)
                True)"
    using unf by simp
  have g: "j < i \<and> parser__compare_versions c (parser__version_status c s j) status_i
              = ErrorComparisonTakeRight \<longrightarrow>
      parser__condense_stack_inner c status_i s i j m =
        parser__condense_stack_inner c status_i (ts_stack_remove_version s j) (i - 1) j True"
    using unf by simp
  show ?thesis
    using a b c d e f g by blast
qed

theorem condense_stack_pairwise_witness:
  "list_all not_halted
     (fst (parser__condense_stack_outer 100 [head_halted, head_plain, head_in_error] 0
             4294967295 False))
 \<and> parser__condense_stack_outer 100 [head_halted, head_plain, head_in_error] 0 4294967295 False
     = parser__condense_stack_outer 100 [head_plain, head_in_error] 0 4294967295 False
 \<and> parser__condense_stack_outer 100 [head_plain, head_in_error] 0 4294967295 False
     = ([head_plain], 0, True)
 \<and> parser__condense_stack_inner 100
       (parser__version_status 100 [head_plain, head_in_error] 1)
       [head_plain, head_in_error] 1 0 False
     = ([head_plain], 0, True)
 \<and> parser__condense_stack_inner 100
       (parser__version_status 100 [head_plain, head_other_state] 1)
       [head_plain, head_other_state] 1 0 False
     = ([head_plain, head_other_state], 1, False)
 \<and> parser__condense_stack_inner 100
       (parser__version_status 100 [head_plain, head_preferred] 1)
       [head_plain, head_preferred] 1 0 False
     = ([head_preferred, head_plain], 1, True)
 \<and> parser__condense_stack_inner 100
       (parser__version_status 100 [head_in_error, head_plain] 1)
       [head_in_error, head_plain] 1 0 False
     = ([head_plain], 0, True)"
  using
    condense_stack_pairwise [where c = 100 and s = "[head_halted, head_plain, head_in_error]"
      and mn = 4294967295 and m = False and i = 0 and j = 0
      and status_i = "parser__version_status 100 [head_halted, head_plain, head_in_error] 0"]
    condense_stack_pairwise [where c = 100 and s = "[head_plain, head_in_error]"
      and mn = 4294967295 and m = False and i = 1 and j = 0
      and status_i = "parser__version_status 100 [head_plain, head_in_error] 1"]
    condense_stack_pairwise [where c = 100 and s = "[head_plain, head_other_state]"
      and mn = 4294967295 and m = False and i = 1 and j = 0
      and status_i = "parser__version_status 100 [head_plain, head_other_state] 1"]
    condense_stack_pairwise [where c = 100 and s = "[head_plain, head_preferred]"
      and mn = 4294967295 and m = False and i = 1 and j = 0
      and status_i = "parser__version_status 100 [head_plain, head_preferred] 1"]
    condense_stack_pairwise [where c = 100 and s = "[head_in_error, head_plain]"
      and mn = 4294967295 and m = False and i = 1 and j = 0
      and status_i = "parser__version_status 100 [head_in_error, head_plain] 1"]
  by (simp add: condense_eval)

text \<open>
  Claim C3 as stated fails after a swap: \<open>status_i\<close> is then no longer the status of the
  version at index \<open>i\<close>. On the versions \<open>[head_plain, head_other_state, head_preferred]\<close>
  the scan for \<open>i = 2\<close> swaps versions 0 and 2 and reaches the pair \<open>(1, 2)\<close> on
  \<open>[head_preferred, head_other_state, head_plain]\<close>. The statuses of versions 1 and 2
  compare as None and their merge fails, so the claim has nothing change; the code
  compares with the status of \<open>head_preferred\<close> and swaps versions 1 and 2.
\<close>

theorem condense_stack_stale_status:
  "parser__condense_stack_inner 100
     (parser__version_status 100 [head_plain, head_other_state, head_preferred] 2)
     [head_plain, head_other_state, head_preferred] 2 0 False
   = parser__condense_stack_inner 100
       (parser__version_status 100 [head_plain, head_other_state, head_preferred] 2)
       [head_preferred, head_other_state, head_plain] 2 1 True
 \<and> parser__compare_versions 100
       (parser__version_status 100 [head_preferred, head_other_state, head_plain] 1)
       (parser__version_status 100 [head_preferred, head_other_state, head_plain] 2)
     = ErrorComparisonNone
 \<and> fst (ts_stack_merge [head_preferred, head_other_state, head_plain] 1 2) = False
 \<and> parser__condense_stack_inner 100
       (parser__version_status 100 [head_plain, head_other_state, head_preferred] 2)
       [head_preferred, head_other_state, head_plain] 2 1 True
     = ([head_preferred, head_plain, head_other_state], 2, True)"
  by (simp add: condense_eval)

section \<open>Lexing: the bytes scanned\<close>

lemma list_all_le_mono:
  "list_all (\<lambda>p. p \<le> (a::uint32)) xs \<Longrightarrow> a \<le> b \<Longrightarrow> list_all (\<lambda>p. p \<le> b) xs"
  by (induction xs) auto

lemma ts_lexer_start_keeps [simp]:
  "current_position (ts_lexer_start lx) = current_position lx"
  "input (ts_lexer_start lx) = input lx"
  by (simp_all add: ts_lexer_start_def)

lemma ts_lexer_reset_keeps [simp]:
  "current_position (ts_lexer_reset lx pos) = pos"
  "input (ts_lexer_reset lx pos) = input lx"
  by (simp_all add: ts_lexer_reset_def)

lemma ts_lexer_advance_forward:
  "length (input lx) < 2 ^ 32 \<Longrightarrow>
     bytes (current_position lx) \<le> bytes (current_position (ts_lexer_advance lx skip)) \<and>
     input (ts_lexer_advance lx skip) = input lx"
proof (cases "unat (bytes (current_position lx)) < length (input lx)")
  case False
  then show ?thesis by (simp add: ts_lexer_advance_def)
next
  case True
  assume "length (input lx) < 2 ^ 32"
  with True have "unat (bytes (current_position lx)) + 1 < 2 ^ 32" by simp
  then have "bytes (current_position lx) \<le> bytes (current_position lx) + 1"
    by (simp add: word_le_nat_alt unat_word_ariths)
  with True show ?thesis by (simp add: ts_lexer_advance_def Let_def)
qed


lemma lex_fn_forward:
  "lexing_moves_forward lang \<Longrightarrow> length (input lx) < 2 ^ 32 \<Longrightarrow>
     bytes (current_position lx) \<le> bytes (current_position (snd (lex_fn lang lx ls))) \<and>
     input (snd (lex_fn lang lx ls)) = input lx"
  by (simp add: lexing_moves_forward_def)

lemma external_scan_forward:
  "lexing_moves_forward lang \<Longrightarrow> length (input lx) < 2 ^ 32 \<Longrightarrow>
     bytes (current_position lx)
       \<le> bytes (current_position (snd (snd (external_scan lang pl lx valid)))) \<and>
     input (snd (snd (external_scan lang pl lx valid))) = input lx"
  by (simp add: lexing_moves_forward_def)

lemma lex_external_scan_forward:
  assumes fwd: "lexing_moves_forward lang" and len: "length (input (lexer st)) < 2 ^ 32"
  shows "bytes (current_position (lexer st))
           \<le> bytes (current_position (snd (snd (parser__lex_external_scan lang ext st valid))))"
    and "input (snd (snd (parser__lex_external_scan lang ext st valid))) = input (lexer st)"
  using external_scan_forward[OF fwd, of "ts_lexer_start (lexer st)"
      "parser__restore_external_scanner lang (payload st) ext" valid] len
  by (simp_all add: parser__lex_external_scan_def Let_def)

lemma lex_external_inv:
  assumes fwd: "lexing_moves_forward lang" and len: "length inp < 2 ^ 32"
    and inv: "lex_inv start inp st"
  shows "lex_inv start inp (snd (parser__lex_external lang ext st))"
proof (cases "valid_external_tokens st")
  case None
  then show ?thesis using inv by (simp add: parser__lex_external_def)
next
  case (Some valid)
  define lx where "lx = snd (snd (parser__lex_external_scan lang ext st valid))"
  have f: "bytes (current_position (lexer st)) \<le> bytes (current_position lx)" "input lx = inp"
    using lex_external_scan_forward[OF fwd, of st ext valid] len inv
    by (simp_all add: lx_def lex_inv_def)
  have old: "list_all (\<lambda>p. p \<le> parser__lex_last_byte_scanned st) (attempts st)"
    "start \<le> last_byte_scanned st"
    using inv by (simp_all add: lex_inv_def)
  define m where "m = (if last_byte_scanned st < bytes (current_position lx)
                       then bytes (current_position lx) else last_byte_scanned st)"
  have m: "parser__lex_last_byte_scanned st \<le> m" "bytes (current_position lx) \<le> m"
    "start \<le> m" "bytes (current_position (lexer st)) \<le> m"
    using f(1) old(2) by (auto simp: m_def parser__lex_last_byte_scanned_def)
  have all: "list_all (\<lambda>p. p \<le> m) (bytes (current_position lx) # attempts st)"
    using list_all_le_mono[OF old(1) m(1)] m(2) by simp
  have acc: "lex_inv start inp (st\<lparr> lexer := lx, payload := pl, found_external_token := True,
            attempts := bytes (current_position lx) # attempts st \<rparr>)" for pl
  proof -
    have "parser__lex_last_byte_scanned (st\<lparr> lexer := lx, payload := pl,
            found_external_token := True,
            attempts := bytes (current_position lx) # attempts st \<rparr>) = m"
      by (simp add: parser__lex_last_byte_scanned_def m_def)
    then show ?thesis using all old(2) f(2) by (simp add: lex_inv_def)
  qed
  have rej: "lex_inv start inp (st\<lparr> lexer := ts_lexer_reset lx (current_position (lexer st)),
            payload := pl, last_byte_scanned := m,
            attempts := bytes (current_position lx) # attempts st \<rparr>)" for pl
  proof -
    have "parser__lex_last_byte_scanned (st\<lparr> lexer := ts_lexer_reset lx (current_position (lexer st)),
            payload := pl, last_byte_scanned := m,
            attempts := bytes (current_position lx) # attempts st \<rparr>) = m"
      using m(4) by (auto simp: parser__lex_last_byte_scanned_def)
    then show ?thesis using all m(3) f(2) by (simp add: lex_inv_def)
  qed
  show ?thesis
    using Some acc rej
    unfolding parser__lex_external_def Let_def lx_def m_def
    by simp
qed

lemma lex_internal_inv:
  assumes fwd: "lexing_moves_forward lang" and len: "length inp < 2 ^ 32"
    and inv: "lex_inv start inp st" and start: "start = bytes start_position"
  shows "lex_inv start inp (snd (parser__lex_internal lang start_position st))"
proof -
  define r where "r = lex_fn lang (ts_lexer_start (lexer st)) (lex_state (cur_lex_mode st))"
  define lx where "lx = snd r"
  have f: "bytes (current_position (lexer st)) \<le> bytes (current_position lx)" "input lx = inp"
    using lex_fn_forward[OF fwd, of "ts_lexer_start (lexer st)" "lex_state (cur_lex_mode st)"]
      len inv by (simp_all add: lx_def r_def lex_inv_def)
  have old: "list_all (\<lambda>p. p \<le> parser__lex_last_byte_scanned st) (attempts st)"
    "start \<le> last_byte_scanned st"
    using inv by (simp_all add: lex_inv_def)
  define m where "m = (if last_byte_scanned st < bytes (current_position lx)
                       then bytes (current_position lx) else last_byte_scanned st)"
  have m: "parser__lex_last_byte_scanned st \<le> m" "bytes (current_position lx) \<le> m"
    "start \<le> m" "last_byte_scanned st \<le> m"
    using f(1) old(2) by (auto simp: m_def parser__lex_last_byte_scanned_def)
  have all: "list_all (\<lambda>p. p \<le> m) (bytes (current_position lx) # attempts st)"
    using list_all_le_mono[OF old(1) m(1)] m(2) by simp
  have adv: "bytes (current_position lx) \<le> bytes (current_position (ts_lexer_advance lx False))"
    "input (ts_lexer_advance lx False) = inp"
    using ts_lexer_advance_forward[of lx False] len f(2) by simp_all
  define m' where "m' = (if last_byte_scanned st < bytes (current_position (ts_lexer_advance lx False))
                       then bytes (current_position (ts_lexer_advance lx False))
                       else last_byte_scanned st)"
  have m': "m \<le> m'" "bytes (current_position (ts_lexer_advance lx False)) \<le> m'"
    using adv(1) by (auto simp: m_def m'_def)
  have all': "list_all (\<lambda>p. p \<le> m')
      (bytes (current_position (ts_lexer_advance lx False)) # bytes (current_position lx) # attempts st)"
    using list_all_le_mono[OF all m'(1)] m'(2) by simp
  show ?thesis
    unfolding parser__lex_internal_def Let_def r_def[symmetric]
    unfolding lx_def[symmetric]
    using all all' old(2) f(2) adv(2) m(3) start
    by (auto simp: lex_inv_def parser__lex_last_byte_scanned_def m_def m'_def
          split: if_splits)
qed


lemma lex_iteration_inv:
  assumes "lexing_moves_forward lang" "length inp < 2 ^ 32"
    "lex_inv (bytes start_position) inp st"
  shows "lex_inv (bytes start_position) inp
           (snd (parser__lex_iteration lang start_position ext st))"
  using lex_external_inv[OF assms, of ext]
    lex_internal_inv[OF assms(1,2) lex_external_inv[OF assms, of ext] refl]
  by (simp add: parser__lex_iteration_def Let_def)

lemma lex_loop_inv:
  assumes "parser__lex_loop lang start_position ext st = Some st'"
  shows "lexing_moves_forward lang \<Longrightarrow> length inp < 2 ^ 32 \<Longrightarrow>
         lex_inv (bytes start_position) inp st \<Longrightarrow> lex_inv (bytes start_position) inp st'"
  using assms
proof (induction rule: parser__lex_loop.raw_induct[rotated 1, consumes 1, case_names step])
  case (step loop lang start_position ext st st')
  have inv: "lex_inv (bytes start_position) inp
      (snd (parser__lex_iteration lang start_position ext st))"
    using lex_iteration_inv[OF step.prems(1,2,3)] .
  show ?case
  proof (cases "fst (parser__lex_iteration lang start_position ext st)")
    case True
    then show ?thesis using step.hyps inv by (simp add: Let_def)
  next
    case False
    then have "loop lang start_position ext
        (snd (parser__lex_iteration lang start_position ext st)) = Some st'"
      using step.hyps by (simp add: Let_def)
    then show ?thesis using step.IH step.prems(1,2) inv by blast
  qed
qed

lemma word32_succ_zero: "(x::32 word) + 1 = 0 \<Longrightarrow> x = 4294967295"
proof -
  assume "x + 1 = 0"
  then have "x = - 1" by (simp add: eq_neg_iff_add_eq_0)
  then show ?thesis by simp
qed

lemma word32_diff_max:
  "(s::32 word) \<le> l \<Longrightarrow> l - s = 4294967295 \<Longrightarrow> s = 0 \<and> l = 4294967295"
proof -
  assume a: "s \<le> l" "l - s = 4294967295"
  have "unat (l - s) = unat l - unat s" using a(1) by (simp add: unat_sub)
  moreover have "unat (l - s) = 4294967295" using a(2) by simp
  moreover have "unat l < 4294967296" using unsigned_less[of l, where 'a = nat] by simp
  ultimately have "unat s = 0" "unat l = 4294967295" by linarith+
  then have "s = 0" by (simp add: unat_eq_0)
  then show ?thesis using a(2) by simp
qed

lemma word32_one_le: "(x::32 word) \<noteq> 0 \<Longrightarrow> 1 \<le> x"
proof -
  assume "x \<noteq> 0"
  then have "0 < unat x" by (simp add: unat_gt_0)
  then have "unat (1::32 word) \<le> unat x" by simp
  then show ?thesis by (simp only: word_le_nat_alt)
qed

lemma lex_init_inv:
  "lex_inv (bytes start_position) (input lx)
     (parser__lex_init lang lx pl start_position ps)"
  by (simp add: lex_inv_def parser__lex_init_def)

lemma lex_result_bytes_scanned:
  "bytes_scanned (scalars (parser__lex_result lang start_position ps st)) =
     parser__lex_last_byte_scanned st - bytes start_position + 1"
  by (simp add: parser__lex_result_def Let_def)

lemma example_language_forward: "lexing_moves_forward example_language"
  using ts_lexer_advance_forward
  by (auto simp: lexing_moves_forward_def example_language_def example_lex_fn_def Let_def)

lemmas lex_eval = parser__lex_def parser__lex_loop.simps parser__lex_iteration_def
  parser__lex_external_def parser__lex_internal_def parser__lex_init_def
  parser__lex_result_def parser__lex_last_byte_scanned_def parser__lex_keyword_def
  ts_lexer_reset_def ts_lexer_start_def ts_lexer_advance_def lookahead_at_def
  ts_tree_make_leaf_def ts_tree_make_error_def example_language_def example_lex_fn_def
  example_lexer_def ts_stack_position_def ts_stack_last_external_token_def
  head_plain_def example_head_def length_zero_def length_sub_def LENGTH_UNDEFINED_def
  ERROR_STATE_def Let_def whole_input_lex_fn_def

text \<open>
  Claim C7, as amended. When the lexing functions of the language never move the lexer
  backwards and the input is shorter than \<open>2 ^ 32\<close> bytes, every tree that \<open>parser__lex\<close>
  produces has \<open>bytes_scanned = last_byte_scanned - start.bytes + 1\<close> in 32-bit unsigned
  arithmetic, where \<open>start\<close> is the position of the stack version and \<open>last_byte_scanned\<close>
  (its value after line 324) is at least \<open>start.bytes\<close> and at least every position that an
  attempt reached (external scan, internal lex, the retry in error mode, the skipping of
  an erroneous character). So \<open>bytes_scanned\<close> is at least \<open>1\<close>, except when \<open>start.bytes\<close>
  is \<open>0\<close> and \<open>last_byte_scanned\<close> is \<open>2 ^ 32 - 1\<close>: there the sum wraps to \<open>0\<close>.
\<close>

theorem lex_bytes_scanned:
  assumes "lexing_moves_forward lang" and "length (input lx) < 2 ^ 32"
    and "parser__lex lang lx pl s version ps = Some (t, st)"
  shows "bytes_scanned (scalars t) =
           parser__lex_last_byte_scanned st - bytes (ts_stack_position s version) + 1
       \<and> bytes (ts_stack_position s version) \<le> parser__lex_last_byte_scanned st
       \<and> list_all (\<lambda>p. p \<le> parser__lex_last_byte_scanned st) (attempts st)
       \<and> (if bytes (ts_stack_position s version) = 0 \<and>
              parser__lex_last_byte_scanned st = 4294967295
           then bytes_scanned (scalars t) = 0 else 1 \<le> bytes_scanned (scalars t))"
proof -
  let ?start = "ts_stack_position s version"
  let ?ext = "ts_stack_last_external_token s version"
  have loop: "parser__lex_loop lang ?start ?ext (parser__lex_init lang lx pl ?start ps) = Some st"
    and t: "t = parser__lex_result lang ?start ps st"
    using assms(3) by (auto simp: parser__lex_def Let_def)
  have inv: "lex_inv (bytes ?start) (input lx) st"
    using lex_loop_inv[OF loop assms(1,2) lex_init_inv] .
  let ?L = "parser__lex_last_byte_scanned st"
  have bs: "bytes_scanned (scalars t) = ?L - bytes ?start + 1"
    using t lex_result_bytes_scanned by simp
  have ge: "bytes ?start \<le> ?L"
    using inv by (auto simp: lex_inv_def parser__lex_last_byte_scanned_def)
  have all: "list_all (\<lambda>p. p \<le> ?L) (attempts st)"
    using inv by (simp add: lex_inv_def)
  have one: "if bytes ?start = 0 \<and> ?L = 4294967295
           then bytes_scanned (scalars t) = 0 else 1 \<le> bytes_scanned (scalars t)"
  proof (cases "bytes ?start = 0 \<and> ?L = 4294967295")
    case True
    then show ?thesis using bs by simp
  next
    case False
    have "?L - bytes ?start + 1 \<noteq> 0"
      using word32_succ_zero[of "?L - bytes ?start"] word32_diff_max[OF ge] False by blast
    then show ?thesis using False bs word32_one_le by simp
  qed
  show ?thesis using bs ge all one by blast
qed


theorem lex_bytes_scanned_witness:
  "lexing_moves_forward example_language
 \<and> length (input (example_lexer [63, 97])) < 2 ^ 32
 \<and> map_option
       (\<lambda>r. (bytes_scanned (scalars (fst r)), parser__lex_last_byte_scanned (snd r),
              attempts (snd r), symbol (scalars (fst r))))
       (parser__lex example_language (example_lexer [63, 97]) [] [head_plain] 0 1)
     = Some (3, 2, [2, 1, 0, 0], ts_builtin_sym_error)"
proof -
  obtain t st where
    e: "parser__lex example_language (example_lexer [63, 97]) [] [head_plain] 0 1 = Some (t, st)"
    by (simp add: lex_eval)
  have len: "length (input (example_lexer [63, 97])) < 2 ^ 32"
    by (simp add: example_lexer_def)
  show ?thesis
    using lex_bytes_scanned [OF example_language_forward len e] example_language_forward
    by (simp add: lex_eval ts_builtin_sym_error_def)
qed

text \<open>
  Claim C7 as stated fails at the end of the 32-bit range: a token that starts at byte 0
  of an input of \<open>2 ^ 32 - 1\<close> bytes and is lexed to the end of the input has
  \<open>last_byte_scanned = 2 ^ 32 - 1\<close> and \<open>bytes_scanned = 0\<close>.
\<close>

theorem lex_bytes_scanned_wraps:
  "length (input (example_lexer (replicate 4294967295 97))) < 2 ^ 32
 \<and> map_option (\<lambda>r. (bytes_scanned (scalars (fst r)), parser__lex_last_byte_scanned (snd r)))
       (parser__lex (example_language\<lparr> lex_fn := whole_input_lex_fn \<rparr>)
          (example_lexer (replicate 4294967295 97)) [] [head_plain] 0 1)
     = Some (0, 4294967295)"
  by (simp add: lex_eval)

section \<open>The bound on the number of versions\<close>

lemma stack_remove_versions_after_take:
  "stack_remove_versions_after s v = take (v + 1) s"
proof (induction s v rule: stack_remove_versions_after.induct)
  case (1 s v)
  show ?case
  proof (cases "v + 1 < ts_stack_version_count s")
    case True
    then have "take (v + 1) (ts_stack_remove_version s (v + 1)) = take (v + 1) s"
      by (simp add: ts_stack_remove_version_def ts_stack_version_count_def)
    then show ?thesis
      using "1.IH"[OF True] True stack_remove_versions_after.simps[of s v] by simp
  next
    case False
    then show ?thesis
      using stack_remove_versions_after.simps[of s v]
      by (simp add: ts_stack_version_count_def)
  qed
qed

lemma foldl_halt_length:
  "length (foldl (\<lambda>s1 sl. ts_stack_halt s1 (slice_version sl)) s rest) = length s"
  by (induction rest arbitrary: s) (simp_all add: ts_stack_halt_def)

lemma parser__reduce_excess_take:
  "parser__reduce_excess s slc rest =
     take (slice_version slc + 1) (foldl (\<lambda>s1 sl. ts_stack_halt s1 (slice_version sl)) s rest)"
  by (simp add: parser__reduce_excess_def stack_remove_versions_after_take)

lemma parser__condense_stack_cap_take:
  "fst (parser__condense_stack_cap s m) = take MAX_VERSION_COUNT s"
proof (induction s m rule: parser__condense_stack_cap.induct)
  case (1 s m)
  show ?case
  proof (cases "MAX_VERSION_COUNT < ts_stack_version_count s")
    case True
    then have "take MAX_VERSION_COUNT (ts_stack_remove_version s MAX_VERSION_COUNT)
        = take MAX_VERSION_COUNT s"
      by (simp add: ts_stack_remove_version_def ts_stack_version_count_def)
    then show ?thesis
      using "1.IH"[OF True] True parser__condense_stack_cap.simps[of s m] by simp
  next
    case False
    then show ?thesis
      using parser__condense_stack_cap.simps[of s m]
      by (simp add: ts_stack_version_count_def)
  qed
qed

lemma ts_stack_push_length: "length (ts_stack_push s v t p st) = length s"
  by (simp add: ts_stack_push_def)

lemma foldl_push_length:
  "length (foldl (\<lambda>s2 t. ts_stack_push s2 v (Some t) p st) s ts) = length s"
  by (induction ts arbitrary: s) (simp_all add: ts_stack_push_length)

lemma parser__reduce_push_length:
  "length (parser__reduce_push lang fr amb n ivc smb dp al s parent slc) = length s"
  by (simp add: parser__reduce_push_def Let_def foldl_push_length ts_stack_push_length)

lemmas reduce_eval =
  parser__reduce_def parser__reduce_slices.simps parser__reduce_merge.simps
  parser__reduce_merge_into.simps parser__reduce_excess_def parser__reduce_push_def
  stack_remove_versions_after.simps ts_stack_pop_count_def stack_pop_paths_def
  stack_add_slice_def link_trees_def ts_stack_push_def stack_node_new_def
  ts_stack_version_count_def ts_stack_state_def ts_tree_make_node_def
  ts_tree_set_children_def ts_tree_make_leaf_def ts_tree_total_size_def
  ts_tree_total_bytes_def example_head_def example_leaf_def example_language_def
  six_versions_def MAX_VERSION_COUNT_def Let_def length_zero_def length_add_def
  ERROR_STATE_def

text \<open>
  Claim C6, as amended. The number of versions can exceed \<open>MAX_VERSION_COUNT\<close>; it is cut
  back at two places. When \<open>parser__reduce\<close> finds it above the bound after it has pushed
  the parent of a slice, it halts the versions of the slices that remain and removes every
  version after that slice's, so that at most \<open>slice.version + 1\<close> versions are left, and
  deals with no further slice. The loop of \<open>parser__condense_stack\<close> that removes the
  version at index \<open>MAX_VERSION_COUNT\<close> (lines 1219 to 1222) leaves the first
  \<open>MAX_VERSION_COUNT\<close> versions, so the bound holds when that loop ends.
\<close>

theorem version_bound_restored:
  "parser__reduce_excess s slc rest =
     take (slice_version slc + 1)
       (foldl (\<lambda>s1 sl. ts_stack_halt s1 (slice_version sl)) s rest)
 \<and> ts_stack_version_count (parser__reduce_excess s slc rest) \<le> slice_version slc + 1
 \<and> (MAX_VERSION_COUNT <
       ts_stack_version_count
         (parser__reduce_push lang is_fragile ambiguous pop_size initial_version_count smb
            dyn_prec al s
            (fst (parser__reduce_same_version
                    (ts_tree_make_node lang smb (strip_trailing_extras (slice_trees first_slice)) al)
                    first_slice slices))
            (fst (snd (parser__reduce_same_version
                    (ts_tree_make_node lang smb (strip_trailing_extras (slice_trees first_slice)) al)
                    first_slice slices)))) \<longrightarrow>
      parser__reduce_slices lang is_fragile ambiguous pop_size initial_version_count smb
        dyn_prec al s (first_slice # slices) =
      parser__reduce_excess
        (parser__reduce_push lang is_fragile ambiguous pop_size initial_version_count smb
            dyn_prec al s
            (fst (parser__reduce_same_version
                    (ts_tree_make_node lang smb (strip_trailing_extras (slice_trees first_slice)) al)
                    first_slice slices))
            (fst (snd (parser__reduce_same_version
                    (ts_tree_make_node lang smb (strip_trailing_extras (slice_trees first_slice)) al)
                    first_slice slices))))
        (fst (snd (parser__reduce_same_version
                    (ts_tree_make_node lang smb (strip_trailing_extras (slice_trees first_slice)) al)
                    first_slice slices)))
        (snd (snd (parser__reduce_same_version
                    (ts_tree_make_node lang smb (strip_trailing_extras (slice_trees first_slice)) al)
                    first_slice slices))))
 \<and> fst (parser__condense_stack_cap s m) = take MAX_VERSION_COUNT s
 \<and> ts_stack_version_count (fst (parser__condense_stack_cap s m)) \<le> MAX_VERSION_COUNT"
proof -
  have a: "parser__reduce_excess s slc rest =
     take (slice_version slc + 1)
       (foldl (\<lambda>s1 sl. ts_stack_halt s1 (slice_version sl)) s rest)"
    by (rule parser__reduce_excess_take)
  have b: "ts_stack_version_count (parser__reduce_excess s slc rest) \<le> slice_version slc + 1"
    by (simp add: a ts_stack_version_count_def)
  have d: "fst (parser__condense_stack_cap s m) = take MAX_VERSION_COUNT s"
    by (rule parser__condense_stack_cap_take)
  have e: "ts_stack_version_count (fst (parser__condense_stack_cap s m)) \<le> MAX_VERSION_COUNT"
    by (simp add: d ts_stack_version_count_def)
  show ?thesis
    using a b d e
      parser__reduce_slices.simps(2)[of lang is_fragile ambiguous pop_size
        initial_version_count smb dyn_prec al s first_slice slices]
    by (simp add: Let_def)
qed

theorem version_bound_restored_witness:
  "MAX_VERSION_COUNT < ts_stack_version_count (snd (ts_stack_pop_count six_versions 0 1))
 \<and> ts_stack_version_count
       (parser__reduce_slices example_language False False 1 6 5 0 0
          (snd (ts_stack_pop_count six_versions 0 1))
          (fst (ts_stack_pop_count six_versions 0 1))) = 7
 \<and> ts_stack_version_count
       (fst (parser__condense_stack_cap
          (parser__reduce_slices example_language False False 1 6 5 0 0
             (snd (ts_stack_pop_count six_versions 0 1))
             (fst (ts_stack_pop_count six_versions 0 1))) False)) = 6"
proof -
  have pop: "fst (ts_stack_pop_count six_versions 0 1) =
      [\<lparr> slice_trees = [example_leaf 1 0 0], slice_version = 6 \<rparr>]"
    by (simp add: reduce_eval numeral_nat)
  have n: "ts_stack_version_count (snd (ts_stack_pop_count six_versions 0 1)) = 7"
    by (simp add: reduce_eval numeral_nat)
  have r: "ts_stack_version_count
       (parser__reduce_slices example_language False False 1 6 5 0 0
          (snd (ts_stack_pop_count six_versions 0 1))
          (fst (ts_stack_pop_count six_versions 0 1))) = 7"
    by (simp add: reduce_eval numeral_nat)
  show ?thesis
    using n r pop
      version_bound_restored [where s = "snd (ts_stack_pop_count six_versions 0 1)"
        and first_slice = "\<lparr> slice_trees = [example_leaf 1 0 0], slice_version = 6 \<rparr>"
        and slices = "[]" and lang = example_language and is_fragile = False
        and ambiguous = False and pop_size = 1 and initial_version_count = 6
        and smb = 5 and dyn_prec = 0 and al = 0 and m = False
        and slc = "\<lparr> slice_trees = [example_leaf 1 0 0], slice_version = 6 \<rparr>"
        and rest = "[]"]
      version_bound_restored [where s = "parser__reduce_slices example_language False False 1 6 5 0 0
             (snd (ts_stack_pop_count six_versions 0 1))
             (fst (ts_stack_pop_count six_versions 0 1))"
        and m = False]
    by (simp add: MAX_VERSION_COUNT_def ts_stack_version_count_def)
qed

text \<open>
  Claim C6 as stated fails: a reduction on the first of six versions pops into a new
  version and leaves seven versions.
\<close>

theorem reduce_exceeds_version_bound:
  "ts_stack_version_count six_versions = 6
 \<and> ts_stack_version_count
       (snd (parser__reduce example_language False six_versions 0 5 1 0 0 False)) = 7"
  by (simp add: reduce_eval numeral_nat)

section \<open>Halting the parse\<close>

lemma ts_lexer_advance_input: "input (ts_lexer_advance lx sk) = input lx"
  by (simp add: ts_lexer_advance_def Let_def)





lemma ts_lexer_advance_to_end_input: "input (ts_lexer_advance_to_end lx) = input lx"
proof -
  have "input (((\<lambda>l. ts_lexer_advance l False) ^^ k) lx) = input lx" for k
    by (induction k) (simp_all add: ts_lexer_advance_input)
  then show ?thesis by (simp add: ts_lexer_advance_to_end_def)
qed
















lemma ts_stack_push_node:
  "v < length s \<Longrightarrow>
   node (ts_stack_push s v tree pending st ! v) = stack_node_new (node (s ! v)) tree pending st"
  by (simp add: ts_stack_push_def)


















section \<open>The order of the sources of the lookahead\<close>







end
